theory Spec2Isabelle
  imports Main
begin

section \<open>JavaScript strings\<close>

text \<open>
  A JavaScript string is modelled as a \<open>string\<close> (a list of characters). The built-in
  methods the program calls are written out: \<open>s.startsWith(p)\<close>, \<open>s.includes(t)\<close>,
  \<open>s.substring(a, b)\<close>, \<open>s.substring(a)\<close> and \<open>String(n)\<close> for an integer.
  \<open>s.toLowerCase()\<close> follows the case tables of the platform and is one of its
  functions (see the record \<open>platform\<close> below). \<open>ascii_lowercase\<close> folds the letters
  A to Z only: it is what the \<open>Headers\<close> class applies to the name of a header.
\<close>

fun startsWith :: "string \<Rightarrow> string \<Rightarrow> bool" where
  "startsWith s [] = True"
| "startsWith [] (p # ps) = False"
| "startsWith (c # cs) (p # ps) = (c = p \<and> startsWith cs ps)"

fun includes_str :: "string \<Rightarrow> string \<Rightarrow> bool" where
  "includes_str [] t = (t = [])"
| "includes_str (c # cs) t = (startsWith (c # cs) t \<or> includes_str cs t)"

definition substring :: "string \<Rightarrow> nat \<Rightarrow> nat \<Rightarrow> string" where
  "substring s a b =
     (let a' = min a (length s); b' = min b (length s);
          lo = min a' b'; hi = max a' b'
      in take (hi - lo) (drop lo s))"

definition substring_from :: "string \<Rightarrow> nat \<Rightarrow> string" where
  "substring_from s a = drop (min a (length s)) s"

definition ascii_lowercase_char :: "char \<Rightarrow> char" where
  "ascii_lowercase_char c =
     (let n = (of_char c :: nat)
      in if 65 \<le> n \<and> n \<le> 90 then char_of (n + 32) else c)"

definition ascii_lowercase :: "string \<Rightarrow> string" where
  "ascii_lowercase s = map ascii_lowercase_char s"

definition digit_char :: "nat \<Rightarrow> char" where
  "digit_char d = ''0123456789'' ! d"

function String_nat :: "nat \<Rightarrow> string" where
  "String_nat n = (if n < 10 then [digit_char n] else String_nat (n div 10) @ [digit_char (n mod 10)])"
  by pat_completeness auto
termination
  by (relation "measure (\<lambda>n. n)") auto

declare String_nat.simps [simp del]

definition String_int :: "int \<Rightarrow> string" where
  "String_int i = (if i < 0 then CHR ''-'' # String_nat (nat (- i)) else String_nat (nat i))"

section \<open>Job records and the match accumulator\<close>

text \<open>
  A job definition as the listing endpoint returns it. The program reads the fields
  \<open>id\<close>, \<open>name\<close>, \<open>description\<close>, \<open>input_option_type\<close>, \<open>output_option_type\<close> and
  \<open>created_by\<close>. An identifier is a JSON number or string, or is absent; the text
  fields are \<open>None\<close> when absent or \<open>null\<close>.
\<close>

datatype job_id = NumId int | StrId string | NoId

record job =
  item_id :: job_id
  item_name :: "string option"
  item_description :: "string option"
  item_input_option_type :: "string option"
  item_output_option_type :: "string option"
  item_created_by :: "string option"

text \<open>\<open>arr.findIndex(p)\<close>: the first index whose element satisfies \<open>p\<close>, or \<open>-1\<close>.\<close>

fun findIndex_from :: "('a \<Rightarrow> bool) \<Rightarrow> 'a list \<Rightarrow> int \<Rightarrow> int" where
  "findIndex_from p [] i = - 1"
| "findIndex_from p (x # xs) i = (if p x then i else findIndex_from p xs (i + 1))"

definition findIndex :: "('a \<Rightarrow> bool) \<Rightarrow> 'a list \<Rightarrow> int" where
  "findIndex p arr = findIndex_from p arr 0"

text \<open>
  \<open>allMatches.filter((match, index, arr) => arr.findIndex(m => m.id === match.id) === index)\<close>
\<close>

definition uniqueMatches :: "job list \<Rightarrow> job list" where
  "uniqueMatches allMatches =
     map snd
       (filter (\<lambda>(index, match).
                  findIndex (\<lambda>m. item_id m = item_id match) allMatches = int index)
          (enumerate 0 allMatches))"

section \<open>The chunks of the keyword strategy\<close>

text \<open>
  The loop \<open>for (let i = 0; i < searchTerm.length - 2; i++) chunks.push(searchTerm.substring(i, i + 3))\<close>.
  The bound is compared over the integers: for a term shorter than two characters
  \<open>searchTerm.length - 2\<close> is negative and the body never runs.
\<close>

function chunk_loop :: "string \<Rightarrow> nat \<Rightarrow> string list \<Rightarrow> string list" where
  "chunk_loop searchTerm i chunks =
     (if int i < int (length searchTerm) - 2
      then chunk_loop searchTerm (i + 1) (chunks @ [substring searchTerm i (i + 3)])
      else chunks)"
  by pat_completeness auto
termination
  by (relation "measure (\<lambda>(s, i, c). length s - i)") auto

declare chunk_loop.simps [simp del]

definition chunks_of :: "string \<Rightarrow> string list" where
  "chunks_of searchTerm =
     chunk_loop searchTerm 0 []
       @ [substring searchTerm 0 (length searchTerm div 2)]
       @ [substring_from searchTerm (length searchTerm div 2)]"

text \<open>
  \<open>[...new Set(chunks)]\<close>: a set keeps its elements in insertion order, and adding an
  element that is already there changes nothing.
\<close>

definition Set_add :: "'a list \<Rightarrow> 'a \<Rightarrow> 'a list" where
  "Set_add seen x = (if x \<in> set seen then seen else seen @ [x])"

definition new_Set :: "'a list \<Rightarrow> 'a list" where
  "new_Set xs = foldl Set_add [] xs"

definition keyword_chunks_list :: "string \<Rightarrow> string list" where
  "keyword_chunks_list searchTerm = new_Set (chunks_of searchTerm)"

section \<open>The request client\<close>

subsection \<open>Values of the platform\<close>

text \<open>
  A thrown \<open>Error\<close> is its message. A parsed JSON value is a \<open>json\<close>; numbers are
  integers. \<open>truthy\<close> is the test of \<open>if (v)\<close> and \<open>v || w\<close>; \<open>get v k\<close> is the property
  read \<open>v.k\<close> on a value that is neither \<open>null\<close> nor \<open>undefined\<close> (\<open>None\<close> is
  \<open>undefined\<close>), and \<open>getq\<close> is \<open>v?.k\<close>.
\<close>

datatype js_error = JsError (message: string)

datatype json = JNull | JBool bool | JNum int | JStr string
  | JArr "json list" | JObj "(string \<times> json) list"

fun truthy :: "json \<Rightarrow> bool" where
  "truthy JNull = False"
| "truthy (JBool b) = b"
| "truthy (JNum n) = (n \<noteq> 0)"
| "truthy (JStr s) = (s \<noteq> [])"
| "truthy (JArr xs) = True"
| "truthy (JObj kvs) = True"

definition truthy_opt :: "json option \<Rightarrow> bool" where
  "truthy_opt v = (case v of None \<Rightarrow> False | Some j \<Rightarrow> truthy j)"

fun get :: "json \<Rightarrow> string \<Rightarrow> json option" where
  "get (JObj kvs) k = map_of kvs k"
| "get v k = None"

definition getq :: "json option \<Rightarrow> string \<Rightarrow> json option" where
  "getq v k = (case v of None \<Rightarrow> None | Some JNull \<Rightarrow> None | Some j \<Rightarrow> get j k)"

text \<open>
  The parsed body of a response, as the program reads it: the \<open>items\<close> of a listing
  (a list of job records; \<open>None\<close> when the field is absent or falsy), its
  \<open>next_cursor\<close> (a string; \<open>None\<close> when absent or \<open>null\<close>), and the body as a JSON
  value, which the detail extraction walks.
\<close>

record payload =
  items :: "job list option"
  next_cursor :: "string option"
  body_json :: json

text \<open>
  An object with string keys, in insertion order: \<open>o[k] = v\<close> and the spread
  \<open>{...a, ...b}\<close>.
\<close>

fun obj_put :: "(string \<times> 'v) list \<Rightarrow> string \<Rightarrow> 'v \<Rightarrow> (string \<times> 'v) list" where
  "obj_put [] k v = [(k, v)]"
| "obj_put ((k', v') # kvs) k v = (if k' = k then (k, v) # kvs else (k', v') # obj_put kvs k v)"

definition obj_spread :: "(string \<times> 'v) list \<Rightarrow> (string \<times> 'v) list \<Rightarrow> (string \<times> 'v) list" where
  "obj_spread a b = foldl (\<lambda>acc (k, v). obj_put acc k v) a b"

text \<open>
  A \<open>URL\<close> object: the components the client reads and its \<open>searchParams\<close>, with
  \<open>append\<close> and \<open>set\<close> (which overwrites the first entry of the key and removes the
  others).
\<close>

record url =
  href :: string
  pathname :: string
  search :: string
  hash :: string
  searchParams :: "(string \<times> string) list"

definition searchParams_append :: "(string \<times> string) list \<Rightarrow> string \<Rightarrow> string \<Rightarrow> (string \<times> string) list" where
  "searchParams_append ps k v = ps @ [(k, v)]"

fun searchParams_set :: "(string \<times> string) list \<Rightarrow> string \<Rightarrow> string \<Rightarrow> (string \<times> string) list" where
  "searchParams_set [] k v = [(k, v)]"
| "searchParams_set ((k', v') # ps) k v =
     (if k' = k then (k, v) # filter (\<lambda>kv. fst kv \<noteq> k) ps
      else (k', v') # searchParams_set ps k v)"

text \<open>The values of a query object, and \<open>String(value)\<close> on the scalar ones.\<close>

datatype scalar = SStr string | SNum int | SBool bool | SNull | SUndefined

datatype qvalue = QScalar scalar | QArray "scalar list"

fun String_scalar :: "scalar \<Rightarrow> string" where
  "String_scalar (SStr s) = s"
| "String_scalar (SNum n) = String_int n"
| "String_scalar (SBool b) = (if b then ''true'' else ''false'')"
| "String_scalar SNull = ''null''"
| "String_scalar SUndefined = ''undefined''"

text \<open>
  What \<open>fetch\<close> is called with, and what comes back. A response carries its status
  line and headers; \<open>response.ok\<close> is true for a status from 200 to 299;
  \<open>response.headers.get\<close> looks a lower-case name up; \<open>response.text()\<close> resolves
  with the body or rejects.
\<close>

datatype body = RawBody string | JsonBody json

record fetch_call =
  fc_url :: url
  fc_method :: string
  fc_headers :: "(string \<times> string) list"
  fc_body :: "string option"

record response =
  r_status :: nat
  r_statusText :: string
  r_url :: string
  r_headers :: "(string \<times> string) list"

definition response_ok :: "response \<Rightarrow> bool" where
  "response_ok r = (200 \<le> r_status r \<and> r_status r \<le> 299)"

definition headers_get :: "(string \<times> string) list \<Rightarrow> string \<Rightarrow> string option" where
  "headers_get hs name = map_of hs (ascii_lowercase name)"

datatype transport = Rejected js_error | Responded response "js_error + string"

text \<open>
  Abort signals live in a store, addressed by position. A signal is aborted or not,
  has a reason once aborted, and a list of listeners: each listener is the \<open>onAbort\<close>
  closure of \<open>anySignal\<close>, identified by the controller it aborts.
  \<open>controller.abort(reason)\<close> does nothing on an aborted signal; otherwise it sets the
  reason (a default error when none is given) and runs the listeners, each of which
  aborts its controller with the reason of the signal that fired, before anything else
  happens.
\<close>

record abort_signal =
  aborted :: bool
  reason :: "js_error option"
  listeners :: "nat list"

definition fresh_signal :: abort_signal where
  "fresh_signal = \<lparr>aborted = False, reason = None, listeners = []\<rparr>"

definition default_abort_error :: js_error where
  "default_abort_error = JsError ''This operation was aborted''"

definition unaborted :: "abort_signal list \<Rightarrow> nat" where
  "unaborted st = length (filter (\<lambda>s. \<not> aborted s) st)"

function run_aborts :: "abort_signal list \<Rightarrow> (nat \<times> js_error option) list \<Rightarrow> abort_signal list" where
  "run_aborts st [] = st"
| "run_aborts st ((i, r) # pending) =
     (if i < length st \<and> \<not> aborted (st ! i)
      then run_aborts
             (st[i := \<lparr>aborted = True,
                       reason = Some (case r of None \<Rightarrow> default_abort_error | Some e \<Rightarrow> e),
                       listeners = []\<rparr>])
             (map (\<lambda>c. (c, Some (case r of None \<Rightarrow> default_abort_error | Some e \<Rightarrow> e)))
                  (listeners (st ! i)) @ pending)
      else run_aborts st pending)"
  by pat_completeness auto

termination
proof (relation "measures [\<lambda>(st, p). unaborted st, \<lambda>(st, p). length p]")
  show "wf (measures [\<lambda>(st, p). unaborted st, \<lambda>(st :: abort_signal list, p :: (nat \<times> js_error option) list). length p])"
    by simp
next
  fix st :: "abort_signal list" and i :: nat and r :: "js_error option"
    and pending :: "(nat \<times> js_error option) list"
  assume live: "i < length st \<and> \<not> aborted (st ! i)"
  have shrink: "k < length xs \<Longrightarrow> \<not> aborted (xs ! k) \<Longrightarrow> aborted s
      \<Longrightarrow> unaborted (xs[k := s]) < unaborted xs" for xs :: "abort_signal list" and k s
  proof (induction xs arbitrary: k)
    case Nil
    then show ?case by simp
  next
    case (Cons a xs)
    show ?case
    proof (cases k)
      case 0
      then show ?thesis using Cons.prems by (simp add: unaborted_def)
    next
      case (Suc k')
      then show ?thesis using Cons.prems Cons.IH [of k'] by (simp add: unaborted_def)
    qed
  qed
  show "((st[i := \<lparr>aborted = True,
                    reason = Some (case r of None \<Rightarrow> default_abort_error | Some e \<Rightarrow> e),
                    listeners = []\<rparr>],
          map (\<lambda>c. (c, Some (case r of None \<Rightarrow> default_abort_error | Some e \<Rightarrow> e)))
              (listeners (st ! i)) @ pending),
         (st, (i, r) # pending))
        \<in> measures [\<lambda>(st, p). unaborted st, \<lambda>(st, p). length p]"
    using live shrink [of i st] by simp
next
  fix st :: "abort_signal list" and i :: nat and r :: "js_error option"
    and pending :: "(nat \<times> js_error option) list"
  show "((st, pending), (st, (i, r) # pending))
        \<in> measures [\<lambda>(st, p). unaborted st, \<lambda>(st, p). length p]"
    by simp
qed

declare run_aborts.simps [simp del]

text \<open>
  \<open>anySignal(signals)\<close>: a new controller; the loop aborts it with the reason of the
  first signal found aborted and stops, and registers \<open>onAbort\<close> on every signal it
  passes before that. It returns the store and the new controller's signal.
\<close>

definition addEventListener :: "abort_signal list \<Rightarrow> nat \<Rightarrow> nat \<Rightarrow> abort_signal list" where
  "addEventListener st signal controller =
     st[signal := (st ! signal)\<lparr>listeners := listeners (st ! signal) @ [controller]\<rparr>]"

fun anySignal_loop :: "abort_signal list \<Rightarrow> nat \<Rightarrow> nat list \<Rightarrow> abort_signal list" where
  "anySignal_loop st controller [] = st"
| "anySignal_loop st controller (signal # signals) =
     (if aborted (st ! signal)
      then run_aborts st [(controller, reason (st ! signal))]
      else anySignal_loop (addEventListener st signal controller) controller signals)"

definition anySignal :: "abort_signal list \<Rightarrow> nat list \<Rightarrow> abort_signal list \<times> nat" where
  "anySignal st signals =
     (let controller = length st
      in (anySignal_loop (st @ [fresh_signal]) controller signals, controller))"

text \<open>
  What happens while one \<open>fetch\<close> is in flight: the abort events that occur before the
  exchange completes, in the order they occur (the request's timer firing, the caller's
  signal aborting with a reason), what the transport yields if nothing aborts it, and
  the time measured around the call.
\<close>

datatype abort_event = TimerFired | ExternalAborted "js_error option"

record timeline =
  tl_aborts :: "abort_event list"
  tl_transport :: transport
  tl_durationMs :: nat

text \<open>
  The platform: the \<open>URL\<close> constructor (with and without a base), \<open>JSON.parse\<close>
  (\<open>None\<close> when it throws), \<open>JSON.stringify\<close>, \<open>String.prototype.toLowerCase\<close> and
  \<open>fetch\<close>, whose behaviour may depend on the calls made before.
\<close>

record platform =
  URL_new :: "string \<Rightarrow> string option \<Rightarrow> js_error + url"
  JSON_parse :: "string \<Rightarrow> payload option"
  JSON_stringify :: "json \<Rightarrow> string"
  toLowerCase :: "string \<Rightarrow> string"
  fetch :: "fetch_call list \<Rightarrow> fetch_call \<Rightarrow> timeline"

subsection \<open>TroccoClient\<close>

text \<open>
  A client holds its base URL, its key and its default timeout; the constants it reads
  from the environment module (the name and the scheme of the authentication header,
  the extra headers) are kept with it. The constructor refuses an empty base URL and an
  empty key.
\<close>

record client =
  baseUrl :: string
  apiKey :: string
  timeoutMs :: nat
  TROCCO_AUTH_HEADER :: string
  TROCCO_AUTH_SCHEME :: string
  TROCCO_EXTRA_HEADERS :: "(string \<times> string) list"

definition TroccoClient_new ::
  "string \<Rightarrow> string \<Rightarrow> nat \<Rightarrow> string \<Rightarrow> string \<Rightarrow> (string \<times> string) list \<Rightarrow> js_error + client" where
  "TroccoClient_new base key t auth_header auth_scheme extra =
     (if base = [] then Inl (JsError ''TroccoClient requires a baseUrl'')
      else if key = [] then Inl (JsError ''TroccoClient requires an API key'')
      else Inr \<lparr>baseUrl = base, apiKey = key, timeoutMs = t,
                TROCCO_AUTH_HEADER = auth_header, TROCCO_AUTH_SCHEME = auth_scheme,
                TROCCO_EXTRA_HEADERS = extra\<rparr>)"

datatype caller_signal = NotAborted | AlreadyAborted js_error

record request_spec =
  rq_path :: string
  rq_method :: string
  rq_query :: "(string \<times> qvalue) list option"
  rq_body :: "body option"
  rq_headers :: "(string \<times> string) list option"
  rq_timeoutMs :: "nat option"
  rq_signal :: "caller_signal option"
  rq_responseType :: string

record request_context =
  ctx_url :: url
  ctx_method :: string
  ctx_body :: "body option"
  ctx_query :: "(string \<times> qvalue) list option"
  ctx_headers :: "(string \<times> string) list"
  ctx_timeoutMs :: nat

record summary =
  sum_ok :: bool
  sum_status :: nat
  sum_statusText :: string
  sum_url :: string
  sum_method :: string
  sum_durationMs :: nat
  sum_headers :: "(string \<times> string) list"
  sum_data :: "payload option"
  sum_text :: "string option"

record api_error =
  err_message :: string
  err_request :: request_context
  err_response :: "summary option"
  err_cause :: "js_error option"

datatype failure = Thrown js_error | TroccoApiError api_error

text \<open>\<open>buildUrl(path, query)\<close>, with the path normalisation as a function of its own.\<close>

definition normalizedPath :: "platform \<Rightarrow> client \<Rightarrow> string \<Rightarrow> js_error + string" where
  "normalizedPath pf cl path =
     (if startsWith path ''http''
      then (case URL_new pf path None of
              Inl e \<Rightarrow> Inl e
            | Inr u \<Rightarrow>
                if \<not> startsWith (href u) (baseUrl cl)
                then Inl (JsError ''External URLs are not allowed. Pass a relative Trocco API path.'')
                else Inr (pathname u @ search u @ hash u))
      else if startsWith path ''/'' then Inr (substring_from path 1)
      else Inr path)"

definition add_query :: "(string \<times> string) list \<Rightarrow> string \<times> qvalue \<Rightarrow> (string \<times> string) list" where
  "add_query ps entry =
     (case entry of
        (key, QScalar SUndefined) \<Rightarrow> ps
      | (key, QScalar SNull) \<Rightarrow> ps
      | (key, QArray value) \<Rightarrow> foldl (\<lambda>acc item. searchParams_append acc key (String_scalar item)) ps value
      | (key, QScalar value) \<Rightarrow> searchParams_set ps key (String_scalar value))"

definition buildUrl ::
  "platform \<Rightarrow> client \<Rightarrow> string \<Rightarrow> (string \<times> qvalue) list option \<Rightarrow> js_error + url" where
  "buildUrl pf cl path query =
     (if path = [] then Inl (JsError ''TroccoClient request requires a path string'')
      else case normalizedPath pf cl path of
             Inl e \<Rightarrow> Inl e
           | Inr p \<Rightarrow>
               (case URL_new pf p (Some (baseUrl cl)) of
                  Inl e \<Rightarrow> Inl e
                | Inr u \<Rightarrow>
                    (case query of
                       None \<Rightarrow> Inr u
                     | Some q \<Rightarrow> Inr (u\<lparr>searchParams := foldl add_query (searchParams u) q\<rparr>))))"

text \<open>\<open>buildHeaders(headers = {})\<close>; \<open>trim\<close> removes white space at both ends.\<close>

definition is_space :: "char \<Rightarrow> bool" where
  "is_space c = (of_char c \<in> {9, 10, 11, 12, 13, 32 :: nat})"

definition trim :: "string \<Rightarrow> string" where
  "trim s = rev (dropWhile is_space (rev (dropWhile is_space s)))"

definition buildHeaders :: "client \<Rightarrow> (string \<times> string) list option \<Rightarrow> (string \<times> string) list" where
  "buildHeaders cl hdrs =
     (let authHeader = (if TROCCO_AUTH_HEADER cl \<noteq> [] then TROCCO_AUTH_HEADER cl else ''Authorization'');
          authValue = (if TROCCO_AUTH_SCHEME cl \<noteq> []
                       then trim (TROCCO_AUTH_SCHEME cl @ '' '' @ apiKey cl) else apiKey cl);
          fixed = obj_put
                    (obj_put
                       [(''Accept'', ''application/json, text/plain;q=0.9, */*;q=0.8''),
                        (''Content-Type'', ''application/json'')]
                       authHeader authValue)
                    ''User-Agent'' ''trocco-mcp-server/0.1.0 (+https://claude.ai)''
      in obj_spread (obj_spread fixed (TROCCO_EXTRA_HEADERS cl))
           (case hdrs of None \<Rightarrow> [] | Some h \<Rightarrow> h))"

definition shouldParseJson :: "response \<Rightarrow> string \<Rightarrow> bool" where
  "shouldParseJson response responseType =
     (if responseType = ''json'' then True
      else if responseType = ''text'' then False
      else case headers_get (r_headers response) ''content-type'' of
             None \<Rightarrow> False
           | Some contentType \<Rightarrow>
               if contentType = [] then False
               else includes_str contentType ''application/json'' \<or> includes_str contentType ''+json'')"

definition toPlainHeaders :: "(string \<times> string) list \<Rightarrow> (string \<times> string) list" where
  "toPlainHeaders hs = obj_spread [] hs"

text \<open>
  The signals of one request: the store holds the caller's signal (if one was passed)
  at position 0, then the request's own controller; with a caller's signal the two are
  combined by \<open>anySignal\<close>. The result is the store, the request's controller and the
  composite signal.
\<close>

definition signal_store :: "caller_signal option \<Rightarrow> abort_signal list" where
  "signal_store sg =
     (case sg of
        None \<Rightarrow> []
      | Some NotAborted \<Rightarrow> [fresh_signal]
      | Some (AlreadyAborted e) \<Rightarrow> [\<lparr>aborted = True, reason = Some e, listeners = []\<rparr>])"

definition request_signals :: "caller_signal option \<Rightarrow> abort_signal list \<times> nat \<times> nat" where
  "request_signals sg =
     (let st = signal_store sg;
          controller = length st;
          st1 = st @ [fresh_signal];
          signals = [controller] @ (case sg of None \<Rightarrow> [] | Some s \<Rightarrow> [0])
      in if length signals = 1 then (st1, controller, controller)
         else (case anySignal st1 signals of (st2, composite) \<Rightarrow> (st2, controller, composite)))"

definition timeout_error :: "nat \<Rightarrow> js_error" where
  "timeout_error ms = JsError (''Trocco API request timed out after '' @ String_nat ms @ '' ms'')"

fun deliver :: "nat \<Rightarrow> nat \<Rightarrow> bool \<Rightarrow> abort_signal list \<Rightarrow> abort_event \<Rightarrow> abort_signal list" where
  "deliver ms controller has_caller st TimerFired =
     run_aborts st [(controller, Some (timeout_error ms))]"
| "deliver ms controller has_caller st (ExternalAborted r) =
     (if has_caller then run_aborts st [(0, r)] else st)"

text \<open>
  The promise of \<open>fetch\<close> and of \<open>response.text()\<close> under the composite signal: once
  the signal is aborted the pending operation rejects with the signal's reason.
\<close>

definition settle :: "abort_signal list \<Rightarrow> nat \<Rightarrow> transport \<Rightarrow> transport" where
  "settle st composite tr =
     (if aborted (st ! composite)
      then Rejected (case reason (st ! composite) of Some e \<Rightarrow> e | None \<Rightarrow> default_abort_error)
      else tr)"

definition wrap_error :: "request_context \<Rightarrow> js_error \<Rightarrow> failure" where
  "wrap_error requestContext error =
     TroccoApiError \<lparr>err_message = message error, err_request = requestContext,
                     err_response = None, err_cause = Some error\<rparr>"

definition conclude ::
  "platform \<Rightarrow> string \<Rightarrow> string \<Rightarrow> request_context \<Rightarrow> nat \<Rightarrow> transport \<Rightarrow> failure + summary" where
  "conclude pf method responseType requestContext durationMs tr =
     (case tr of
        Rejected error \<Rightarrow> Inl (wrap_error requestContext error)
      | Responded response (Inl error) \<Rightarrow> Inl (wrap_error requestContext error)
      | Responded response (Inr rawText) \<Rightarrow>
          (let parsed = (if rawText \<noteq> [] \<and> shouldParseJson response responseType
                         then JSON_parse pf rawText else None);
               summary = \<lparr>sum_ok = response_ok response,
                          sum_status = r_status response,
                          sum_statusText = r_statusText response,
                          sum_url = r_url response,
                          sum_method = method,
                          sum_durationMs = durationMs,
                          sum_headers = toPlainHeaders (r_headers response),
                          sum_data = parsed,
                          sum_text = (if parsed \<noteq> None then None
                                      else if rawText \<noteq> [] then Some rawText else None)\<rparr>
           in if \<not> response_ok response
              then Inl (TroccoApiError
                     \<lparr>err_message = ''Trocco API responded with '' @ String_nat (r_status response)
                                      @ '' '' @ r_statusText response,
                      err_request = requestContext,
                      err_response = Some summary,
                      err_cause = None\<rparr>)
              else Inr summary))"

definition request_body :: "platform \<Rightarrow> string \<Rightarrow> body option \<Rightarrow> string option" where
  "request_body pf method b =
     (case b of
        None \<Rightarrow> None
      | Some v \<Rightarrow>
          if method \<noteq> ''GET'' \<and> method \<noteq> ''HEAD''
          then (case v of RawBody t \<Rightarrow> Some t | JsonBody j \<Rightarrow> Some (JSON_stringify pf j))
          else None)"

text \<open>
  \<open>request(spec)\<close>. The timeout is \<open>timeoutMs ?? this.timeoutMs\<close>; \<open>requestInit\<close> is
  what \<open>fetch\<close> is called with and \<open>requestContext\<close> what an error carries. The log
  of \<open>fetch\<close> calls is threaded through: a request whose URL cannot be built throws
  before \<open>fetch\<close> is called and leaves the log as it is.
\<close>

definition effective_timeout :: "client \<Rightarrow> request_spec \<Rightarrow> nat" where
  "effective_timeout cl spec = (case rq_timeoutMs spec of Some t \<Rightarrow> t | None \<Rightarrow> timeoutMs cl)"

definition requestInit :: "platform \<Rightarrow> client \<Rightarrow> request_spec \<Rightarrow> url \<Rightarrow> fetch_call" where
  "requestInit pf cl spec u =
     \<lparr>fc_url = u, fc_method = rq_method spec,
      fc_headers = buildHeaders cl (rq_headers spec),
      fc_body = request_body pf (rq_method spec) (rq_body spec)\<rparr>"

definition requestContext :: "client \<Rightarrow> request_spec \<Rightarrow> url \<Rightarrow> request_context" where
  "requestContext cl spec u =
     \<lparr>ctx_url = u, ctx_method = rq_method spec, ctx_body = rq_body spec,
      ctx_query = rq_query spec, ctx_headers = buildHeaders cl (rq_headers spec),
      ctx_timeoutMs = effective_timeout cl spec\<rparr>"

definition request ::
  "platform \<Rightarrow> client \<Rightarrow> fetch_call list \<Rightarrow> request_spec \<Rightarrow> fetch_call list \<times> (failure + summary)" where
  "request pf cl log spec =
     (case buildUrl pf cl (rq_path spec) (rq_query spec) of
        Inl e \<Rightarrow> (log, Inl (Thrown e))
      | Inr u \<Rightarrow>
          (case request_signals (rq_signal spec) of
             (st0, controller, compositeSignal) \<Rightarrow>
               (let tl = fetch pf log (requestInit pf cl spec u);
                    st = foldl (deliver (effective_timeout cl spec) controller (rq_signal spec \<noteq> None))
                           st0 (tl_aborts tl)
                in (log @ [requestInit pf cl spec u],
                    conclude pf (rq_method spec) (rq_responseType spec) (requestContext cl spec u)
                      (tl_durationMs tl) (settle st compositeSignal (tl_transport tl))))))"

section \<open>The batch search tool\<close>

subsection \<open>Batches and filters\<close>

datatype strategy = exhaustive_scan | keyword_chunks | alphabet_sweep | recent_first

record scan_state =
  allMatches :: "job list"
  totalScanned :: nat
  batchesSearched :: nat

text \<open>
  The filter of \<open>exhaustive_scan\<close> and \<open>recent_first\<close>:
  \<open>(item.name || '').toLowerCase().includes(t) || (item.description || '').toLowerCase().includes(t)\<close>,
  and the filter of \<open>keyword_chunks\<close> and \<open>alphabet_sweep\<close>, which reads the name only.
\<close>

definition name_or_description_filter :: "platform \<Rightarrow> string \<Rightarrow> job \<Rightarrow> bool" where
  "name_or_description_filter pf searchTermLower item =
     (let name = toLowerCase pf (case item_name item of None \<Rightarrow> [] | Some n \<Rightarrow> n);
          desc = toLowerCase pf (case item_description item of None \<Rightarrow> [] | Some d \<Rightarrow> d)
      in includes_str name searchTermLower \<or> includes_str desc searchTermLower)"

definition name_filter :: "platform \<Rightarrow> string \<Rightarrow> job \<Rightarrow> bool" where
  "name_filter pf searchTermLower item =
     (let name = toLowerCase pf (case item_name item of None \<Rightarrow> [] | Some n \<Rightarrow> n)
      in includes_str name searchTermLower)"

definition strategy_filter :: "platform \<Rightarrow> strategy \<Rightarrow> string \<Rightarrow> job \<Rightarrow> bool" where
  "strategy_filter pf s =
     (case s of
        exhaustive_scan \<Rightarrow> name_or_description_filter pf
      | keyword_chunks \<Rightarrow> name_filter pf
      | alphabet_sweep \<Rightarrow> name_filter pf
      | recent_first \<Rightarrow> name_or_description_filter pf)"

text \<open>\<open>response.data?.items || []\<close> and \<open>response.data?.next_cursor\<close>.\<close>

definition response_items :: "summary \<Rightarrow> job list" where
  "response_items response =
     (case sum_data response of
        None \<Rightarrow> []
      | Some d \<Rightarrow> (case items d of None \<Rightarrow> [] | Some xs \<Rightarrow> xs))"

definition response_next_cursor :: "summary \<Rightarrow> string option" where
  "response_next_cursor response =
     (case sum_data response of None \<Rightarrow> None | Some d \<Rightarrow> next_cursor d)"

definition cursor_truthy :: "string option \<Rightarrow> bool" where
  "cursor_truthy cursor = (case cursor of None \<Rightarrow> False | Some c \<Rightarrow> c \<noteq> [])"

text \<open>
  What every strategy does with the items of a batch: \<open>totalScanned += items.length\<close>,
  \<open>batchesSearched++\<close>, and \<open>allMatches.push(...items.filter(...))\<close> with the
  strategy's filter.
\<close>

definition record_batch ::
  "platform \<Rightarrow> strategy \<Rightarrow> string \<Rightarrow> scan_state \<Rightarrow> job list \<Rightarrow> scan_state" where
  "record_batch pf s searchTermLower st its =
     st\<lparr>totalScanned := totalScanned st + length its,
        batchesSearched := batchesSearched st + 1,
        allMatches := allMatches st @ filter (strategy_filter pf s searchTermLower) its\<rparr>"

definition job_definitions_request :: "(string \<times> qvalue) list \<Rightarrow> request_spec" where
  "job_definitions_request q =
     \<lparr>rq_path = ''job_definitions'', rq_method = ''GET'', rq_query = Some q,
      rq_body = None, rq_headers = None, rq_timeoutMs = None, rq_signal = None,
      rq_responseType = ''auto''\<rparr>"

subsection \<open>The four strategies\<close>

text \<open>
  \<open>exhaustive_scan\<close>: \<open>while (hasMore && batchesSearched < maxBatches)\<close>, following
  the cursor; a failed request leaves the loop.
\<close>

function exhaustive_scan_loop ::
  "platform \<Rightarrow> client \<Rightarrow> string \<Rightarrow> nat \<Rightarrow> string option \<Rightarrow> bool
     \<Rightarrow> fetch_call list \<times> scan_state \<Rightarrow> fetch_call list \<times> scan_state" where
  "exhaustive_scan_loop pf cl searchTermLower maxBatches cursor hasMore (log, st) =
     (if hasMore \<and> batchesSearched st < maxBatches
      then (case request pf cl log
                   (job_definitions_request
                      ([(''limit'', QScalar (SNum 100))]
                       @ (if cursor_truthy cursor
                          then [(''cursor'', QScalar (SStr (case cursor of Some c \<Rightarrow> c | None \<Rightarrow> [])))]
                          else []))) of
              (log', Inl error) \<Rightarrow> (log', st)
            | (log', Inr response) \<Rightarrow>
                exhaustive_scan_loop pf cl searchTermLower maxBatches
                  (response_next_cursor response)
                  (cursor_truthy (response_next_cursor response))
                  (log', record_batch pf exhaustive_scan searchTermLower st (response_items response)))
      else (log, st))"
  by pat_completeness auto
termination
  by (relation "measure (\<lambda>(pf, cl, t, maxBatches, cursor, hasMore, log, st). maxBatches - batchesSearched st)")
     (auto simp: record_batch_def)

declare exhaustive_scan_loop.simps [simp del]

text \<open>
  \<open>keyword_chunks\<close> and \<open>alphabet_sweep\<close> run the same loop over a list of strings
  (the chunks, the letters): \<open>if (batchesSearched >= maxBatches) break\<close>, then a
  request with \<open>{ name_contains: chunk, limit: 200 }\<close>; a failed request is ignored
  and the loop goes on.
\<close>

definition name_contains_request :: "string \<Rightarrow> request_spec" where
  "name_contains_request chunk =
     job_definitions_request
       [(''name_contains'', QScalar (SStr chunk)), (''limit'', QScalar (SNum 200))]"

fun name_contains_loop ::
  "strategy \<Rightarrow> platform \<Rightarrow> client \<Rightarrow> string \<Rightarrow> nat \<Rightarrow> string list
     \<Rightarrow> fetch_call list \<times> scan_state \<Rightarrow> fetch_call list \<times> scan_state" where
  "name_contains_loop s pf cl searchTermLower maxBatches [] (log, st) = (log, st)"
| "name_contains_loop s pf cl searchTermLower maxBatches (chunk # rest) (log, st) =
     (if batchesSearched st \<ge> maxBatches then (log, st)
      else (case request pf cl log (name_contains_request chunk) of
              (log', Inl error) \<Rightarrow>
                name_contains_loop s pf cl searchTermLower maxBatches rest (log', st)
            | (log', Inr response) \<Rightarrow>
                name_contains_loop s pf cl searchTermLower maxBatches rest
                  (log', record_batch pf s searchTermLower st (response_items response))))"

definition letters :: "string list" where
  "letters = map (\<lambda>c. [c]) ''abcdefghijklmnopqrstuvwxyz0123456789''"

text \<open>
  \<open>recent_first\<close>: \<open>for (let i = 0; i < maxBatches; i++)\<close>, the same request each
  time; the loop is left when a batch is empty or a request fails. The first argument
  counts the iterations that remain.
\<close>

fun recent_first_loop ::
  "nat \<Rightarrow> platform \<Rightarrow> client \<Rightarrow> string
     \<Rightarrow> fetch_call list \<times> scan_state \<Rightarrow> fetch_call list \<times> scan_state" where
  "recent_first_loop 0 pf cl searchTermLower (log, st) = (log, st)"
| "recent_first_loop (Suc n) pf cl searchTermLower (log, st) =
     (case request pf cl log (job_definitions_request [(''limit'', QScalar (SNum 100))]) of
        (log', Inl error) \<Rightarrow> (log', st)
      | (log', Inr response) \<Rightarrow>
          if response_items response = []
          then (log', record_batch pf recent_first searchTermLower st (response_items response))
          else recent_first_loop n pf cl searchTermLower
                 (log', record_batch pf recent_first searchTermLower st (response_items response)))"

definition scan ::
  "platform \<Rightarrow> client \<Rightarrow> string \<Rightarrow> strategy \<Rightarrow> nat \<Rightarrow> fetch_call list \<times> scan_state" where
  "scan pf cl searchTerm s maxBatches =
     (let searchTermLower = toLowerCase pf searchTerm;
          start = ([], \<lparr>allMatches = [], totalScanned = 0, batchesSearched = 0\<rparr>)
      in case s of
           exhaustive_scan \<Rightarrow>
             exhaustive_scan_loop pf cl searchTermLower maxBatches None True start
         | keyword_chunks \<Rightarrow>
             name_contains_loop keyword_chunks pf cl searchTermLower maxBatches
               (keyword_chunks_list searchTerm) start
         | alphabet_sweep \<Rightarrow>
             name_contains_loop alphabet_sweep pf cl searchTermLower maxBatches letters start
         | recent_first \<Rightarrow>
             recent_first_loop maxBatches pf cl searchTermLower start)"

subsection \<open>Enrichment\<close>

text \<open>
  \<open>extractConfigDetails(details)\<close> on the JSON of a detail record. \<open>or_js\<close> is
  \<open>a || b\<close>. A configuration object is a record of its five optional entries; the
  empty object has none.
\<close>

definition or_js :: "json option \<Rightarrow> json option \<Rightarrow> json option" where
  "or_js a b = (if truthy_opt a then a else b)"

record s3_config =
  s3_bucket :: "json option"
  s3_prefix :: "json option"
  s3_region :: "json option"

record snowflake_config =
  sf_database :: "json option"
  sf_schema :: "json option"
  sf_table :: "json option"
  sf_warehouse :: "json option"

record bigquery_config =
  bq_project_id :: "json option"
  bq_dataset_id :: "json option"
  bq_table_id :: "json option"

record config =
  input_s3 :: "s3_config option"
  input_snowflake :: "snowflake_config option"
  output_s3 :: "s3_config option"
  output_snowflake :: "snowflake_config option"
  output_bigquery :: "bigquery_config option"

definition empty_config :: config where
  "empty_config = \<lparr>input_s3 = None, input_snowflake = None, output_s3 = None,
                    output_snowflake = None, output_bigquery = None\<rparr>"

definition s3_entry :: "json option \<Rightarrow> json option \<Rightarrow> string \<Rightarrow> s3_config option" where
  "s3_entry option_type opt nested =
     (if option_type = Some (JStr ''s3'') \<and> truthy_opt opt
      then (let s3Config = (if truthy_opt (getq opt nested) then getq opt nested
                            else if truthy_opt (getq opt ''bucket'') then opt
                            else None)
            in if truthy_opt s3Config
               then Some \<lparr>s3_bucket = getq s3Config ''bucket'',
                          s3_prefix = or_js (getq s3Config ''path_prefix'')
                                        (or_js (getq s3Config ''prefix'')
                                           (or_js (getq s3Config ''key_prefix'') (Some (JStr [])))),
                          s3_region = getq s3Config ''region''\<rparr>
               else None)
      else None)"

definition snowflake_entry :: "json option \<Rightarrow> json option \<Rightarrow> string \<Rightarrow> snowflake_config option" where
  "snowflake_entry option_type opt nested =
     (if option_type = Some (JStr ''snowflake'') \<and> truthy_opt (getq opt nested)
      then Some \<lparr>sf_database = getq (getq opt nested) ''database'',
                 sf_schema = getq (getq opt nested) ''schema'',
                 sf_table = getq (getq opt nested) ''table'',
                 sf_warehouse = getq (getq opt nested) ''warehouse''\<rparr>
      else None)"

definition bigquery_entry :: "json option \<Rightarrow> json option \<Rightarrow> string \<Rightarrow> bigquery_config option" where
  "bigquery_entry option_type opt nested =
     (if option_type = Some (JStr ''bigquery'') \<and> truthy_opt (getq opt nested)
      then Some \<lparr>bq_project_id = getq (getq opt nested) ''project_id'',
                 bq_dataset_id = getq (getq opt nested) ''dataset_id'',
                 bq_table_id = getq (getq opt nested) ''table_id''\<rparr>
      else None)"

definition extractConfigDetails :: "json option \<Rightarrow> config" where
  "extractConfigDetails details =
     \<lparr>input_s3 = s3_entry (getq details ''input_option_type'') (getq details ''input_option'')
                   ''s3_input_option'',
      input_snowflake = snowflake_entry (getq details ''input_option_type'')
                          (getq details ''input_option'') ''snowflake_input_option'',
      output_s3 = s3_entry (getq details ''output_option_type'') (getq details ''output_option'')
                    ''s3_output_option'',
      output_snowflake = snowflake_entry (getq details ''output_option_type'')
                           (getq details ''output_option'') ''snowflake_output_option'',
      output_bigquery = bigquery_entry (getq details ''output_option_type'')
                          (getq details ''output_option'') ''bigquery_output_option''\<rparr>"

text \<open>
  \<open>fetchJobDefinitionDetails(jobId)\<close>: the data of the detail response, or \<open>null\<close>
  (here \<open>None\<close>, as for a response without data) when the request fails. \<open>String_id\<close>
  is the identifier inside the template string.
\<close>

fun String_id :: "job_id \<Rightarrow> string" where
  "String_id (NumId n) = String_int n"
| "String_id (StrId s) = s"
| "String_id NoId = ''undefined''"

definition details_request :: "job_id \<Rightarrow> request_spec" where
  "details_request jobId =
     \<lparr>rq_path = ''job_definitions/'' @ String_id jobId, rq_method = ''GET'',
      rq_query = None, rq_body = None, rq_headers = None, rq_timeoutMs = None,
      rq_signal = None, rq_responseType = ''auto''\<rparr>"

definition fetchJobDefinitionDetails ::
  "platform \<Rightarrow> client \<Rightarrow> fetch_call list \<Rightarrow> job_id \<Rightarrow> fetch_call list \<times> json option" where
  "fetchJobDefinitionDetails pf cl log jobId =
     (case request pf cl log (details_request jobId) of
        (log', Inl error) \<Rightarrow> (log', None)
      | (log', Inr response) \<Rightarrow> (log', map_option body_json (sum_data response)))"

text \<open>
  The map over \<open>uniqueMatches.slice(0, 5)\<close>: every callback calls \<open>fetch\<close> before the
  next one starts, so the calls are logged in the order of the items. An enriched match
  is the item with its \<open>config\<close>.
\<close>

fun enrich ::
  "platform \<Rightarrow> client \<Rightarrow> fetch_call list \<Rightarrow> job list \<Rightarrow> fetch_call list \<times> (job \<times> config) list" where
  "enrich pf cl log [] = (log, [])"
| "enrich pf cl log (item # rest) =
     (case fetchJobDefinitionDetails pf cl log (item_id item) of
        (log', details) \<Rightarrow>
          (case enrich pf cl log' rest of
             (log'', others) \<Rightarrow>
               (log'',
                (item, if truthy_opt details then extractConfigDetails details else empty_config)
                # others)))"

subsection \<open>The result\<close>

definition endsWith :: "string \<Rightarrow> string \<Rightarrow> bool" where
  "endsWith s t = startsWith (rev s) (rev t)"

text \<open>\<open>TROCCO_BASE_URL.replace(/\/api\/?$/, '')\<close> and the link built from it.\<close>

definition strip_api :: "string \<Rightarrow> string" where
  "strip_api s =
     (if endsWith s ''/api/'' then take (length s - 5) s
      else if endsWith s ''/api'' then take (length s - 4) s
      else s)"

definition generateJobDefinitionUrl :: "string \<Rightarrow> job_id \<Rightarrow> string" where
  "generateJobDefinitionUrl base jobId = strip_api base @ ''/job_definitions/'' @ String_id jobId"

record match_view =
  m_id :: job_id
  m_name :: "string option"
  m_description :: "string option"
  m_input_type :: "string option"
  m_output_type :: "string option"
  m_created_by :: "string option"
  m_url :: string

record search_result =
  res_ok :: bool
  res_strategy :: strategy
  res_batchesSearched :: nat
  res_totalScanned :: nat
  res_matches :: "match_view list"
  res_searchProgress :: string

definition project_match :: "string \<Rightarrow> job \<Rightarrow> match_view" where
  "project_match base item =
     \<lparr>m_id = item_id item, m_name = item_name item, m_description = item_description item,
      m_input_type = item_input_option_type item, m_output_type = item_output_option_type item,
      m_created_by = item_created_by item, m_url = generateJobDefinitionUrl base (item_id item)\<rparr>"

text \<open>
  The tool handler. It returns the log of the \<open>fetch\<close> calls, the structured result
  and the enriched matches, from which the text of the answer is rendered. The client
  of the server is built from \<open>TROCCO_BASE_URL\<close>, which is its \<open>baseUrl\<close>.
\<close>

definition trocco_batch_search ::
  "platform \<Rightarrow> client \<Rightarrow> string \<Rightarrow> strategy \<Rightarrow> nat
     \<Rightarrow> fetch_call list \<times> search_result \<times> (job \<times> config) list" where
  "trocco_batch_search pf cl searchTerm s maxBatches =
     (case scan pf cl searchTerm s maxBatches of
        (log, st) \<Rightarrow>
          (let unique = uniqueMatches (allMatches st)
           in case enrich pf cl log (take 5 unique) of
                (log', enrichedMatches) \<Rightarrow>
                  (log',
                   \<lparr>res_ok = True, res_strategy = s,
                    res_batchesSearched = batchesSearched st,
                    res_totalScanned = totalScanned st,
                    res_matches = map (project_match (baseUrl cl)) unique,
                    res_searchProgress =
                      String_nat (batchesSearched st) @ ''/'' @ String_nat maxBatches
                      @ '' batches, '' @ String_nat (totalScanned st) @ '' configs scanned''\<rparr>,
                   enrichedMatches)))"

section \<open>Observations\<close>

text \<open>
  The \<open>fetch\<close> calls one request adds to the log: none when the URL cannot be built,
  one otherwise.
\<close>

definition issued :: "platform \<Rightarrow> client \<Rightarrow> request_spec \<Rightarrow> fetch_call list" where
  "issued pf cl spec =
     (case buildUrl pf cl (rq_path spec) (rq_query spec) of
        Inl e \<Rightarrow> []
      | Inr u \<Rightarrow> [requestInit pf cl spec u])"


definition error_cause :: "failure + summary \<Rightarrow> js_error option" where
  "error_cause res =
     (case res of Inl (TroccoApiError e) \<Rightarrow> err_cause e | Inl (Thrown e) \<Rightarrow> None | Inr s \<Rightarrow> None)"

definition error_message :: "failure + summary \<Rightarrow> string option" where
  "error_message res =
     (case res of Inl (TroccoApiError e) \<Rightarrow> Some (err_message e)
                | Inl (Thrown e) \<Rightarrow> Some (message e) | Inr s \<Rightarrow> None)"

text \<open>A position of a list of jobs holds the first occurrence of its identifier.\<close>

definition first_occurrence :: "job list \<Rightarrow> nat \<Rightarrow> bool" where
  "first_occurrence xs i = (\<forall>j<i. item_id (xs ! j) \<noteq> item_id (xs ! i))"

text \<open>The lower-cased name and description a filter looks at.\<close>

definition lower_name :: "platform \<Rightarrow> job \<Rightarrow> string" where
  "lower_name pf item = toLowerCase pf (case item_name item of None \<Rightarrow> [] | Some n \<Rightarrow> n)"

definition lower_description :: "platform \<Rightarrow> job \<Rightarrow> string" where
  "lower_description pf item = toLowerCase pf (case item_description item of None \<Rightarrow> [] | Some d \<Rightarrow> d)"

text \<open>
  The batches a scan receives: the items of every response its requests return, in the
  order of the requests. The three functions follow the loops of the strategies step by
  step, with the same requests and the same exits; where a loop counts and filters the
  items of a batch, they keep the batch. \<open>scan_trace\<close> is the log of the \<open>fetch\<close> calls
  and the batches of a scan, \<open>scan_batches\<close> its batches, and \<open>tally\<close> the state of a
  scan that has counted and filtered a list of batches.
\<close>

function exhaustive_scan_batches ::
  "platform \<Rightarrow> client \<Rightarrow> nat \<Rightarrow> string option \<Rightarrow> bool
     \<Rightarrow> fetch_call list \<times> job list list \<Rightarrow> fetch_call list \<times> job list list" where
  "exhaustive_scan_batches pf cl maxBatches cursor hasMore (log, batches) =
     (if hasMore \<and> length batches < maxBatches
      then (case request pf cl log
                   (job_definitions_request
                      ([(''limit'', QScalar (SNum 100))]
                       @ (if cursor_truthy cursor
                          then [(''cursor'', QScalar (SStr (case cursor of Some c \<Rightarrow> c | None \<Rightarrow> [])))]
                          else []))) of
              (log', Inl error) \<Rightarrow> (log', batches)
            | (log', Inr response) \<Rightarrow>
                exhaustive_scan_batches pf cl maxBatches
                  (response_next_cursor response)
                  (cursor_truthy (response_next_cursor response))
                  (log', batches @ [response_items response]))
      else (log, batches))"
  by pat_completeness auto
termination
  by (relation "measure (\<lambda>(pf, cl, maxBatches, cursor, hasMore, log, batches). maxBatches - length batches)")
     auto

declare exhaustive_scan_batches.simps [simp del]

fun name_contains_batches ::
  "platform \<Rightarrow> client \<Rightarrow> nat \<Rightarrow> string list
     \<Rightarrow> fetch_call list \<times> job list list \<Rightarrow> fetch_call list \<times> job list list" where
  "name_contains_batches pf cl maxBatches [] (log, batches) = (log, batches)"
| "name_contains_batches pf cl maxBatches (chunk # rest) (log, batches) =
     (if length batches \<ge> maxBatches then (log, batches)
      else (case request pf cl log (name_contains_request chunk) of
              (log', Inl error) \<Rightarrow> name_contains_batches pf cl maxBatches rest (log', batches)
            | (log', Inr response) \<Rightarrow>
                name_contains_batches pf cl maxBatches rest
                  (log', batches @ [response_items response])))"

fun recent_first_batches ::
  "nat \<Rightarrow> platform \<Rightarrow> client
     \<Rightarrow> fetch_call list \<times> job list list \<Rightarrow> fetch_call list \<times> job list list" where
  "recent_first_batches 0 pf cl (log, batches) = (log, batches)"
| "recent_first_batches (Suc n) pf cl (log, batches) =
     (case request pf cl log (job_definitions_request [(''limit'', QScalar (SNum 100))]) of
        (log', Inl error) \<Rightarrow> (log', batches)
      | (log', Inr response) \<Rightarrow>
          if response_items response = []
          then (log', batches @ [response_items response])
          else recent_first_batches n pf cl (log', batches @ [response_items response]))"

definition scan_trace ::
  "platform \<Rightarrow> client \<Rightarrow> string \<Rightarrow> strategy \<Rightarrow> nat \<Rightarrow> fetch_call list \<times> job list list" where
  "scan_trace pf cl searchTerm s maxBatches =
     (case s of
        exhaustive_scan \<Rightarrow> exhaustive_scan_batches pf cl maxBatches None True ([], [])
      | keyword_chunks \<Rightarrow>
          name_contains_batches pf cl maxBatches (keyword_chunks_list searchTerm) ([], [])
      | alphabet_sweep \<Rightarrow> name_contains_batches pf cl maxBatches letters ([], [])
      | recent_first \<Rightarrow> recent_first_batches maxBatches pf cl ([], []))"

definition scan_batches ::
  "platform \<Rightarrow> client \<Rightarrow> string \<Rightarrow> strategy \<Rightarrow> nat \<Rightarrow> job list list" where
  "scan_batches pf cl searchTerm s maxBatches = snd (scan_trace pf cl searchTerm s maxBatches)"

definition tally :: "platform \<Rightarrow> strategy \<Rightarrow> string \<Rightarrow> job list list \<Rightarrow> scan_state" where
  "tally pf s searchTermLower batches =
     \<lparr>allMatches = filter (strategy_filter pf s searchTermLower) (concat batches),
      totalScanned = length (concat batches),
      batchesSearched = length batches\<rparr>"

text \<open>
  The outcome of the detail request for the \<open>i\<close>-th enrichment candidate (made after
  the requests for the candidates before it), and the \<open>config\<close> the handler derives
  from an outcome.
\<close>

definition detail_outcome ::
  "platform \<Rightarrow> client \<Rightarrow> fetch_call list \<Rightarrow> job list \<Rightarrow> nat \<Rightarrow> failure + summary" where
  "detail_outcome pf cl log candidates i =
     snd (request pf cl (fst (enrich pf cl log (take i candidates)))
            (details_request (item_id (candidates ! i))))"

definition config_of_outcome :: "failure + summary \<Rightarrow> config" where
  "config_of_outcome res =
     (case res of
        Inl e \<Rightarrow> empty_config
      | Inr response \<Rightarrow>
          if truthy_opt (map_option body_json (sum_data response))
          then extractConfigDetails (map_option body_json (sum_data response))
          else empty_config)"

section \<open>Examples\<close>

text \<open>
  Stand-ins to run the model on. \<open>plain_URL\<close> is a \<open>URL\<close> constructor that joins the
  base and the input and parses nothing; \<open>absolute_URL\<close> does what the constructor does
  for an input with a scheme: such an input is an absolute URL, the base is ignored and
  the scheme is lower-cased.
\<close>

definition plain_URL :: "string \<Rightarrow> string option \<Rightarrow> js_error + url" where
  "plain_URL input base =
     Inr \<lparr>href = (case base of None \<Rightarrow> input | Some b \<Rightarrow> b @ input),
          pathname = input, search = [], hash = [], searchParams = []\<rparr>"

definition absolute_URL :: "string \<Rightarrow> string option \<Rightarrow> js_error + url" where
  "absolute_URL input base =
     (if includes_str input ''://''
      then Inr \<lparr>href = ascii_lowercase (takeWhile (\<lambda>c. c \<noteq> CHR '':'') input)
                        @ dropWhile (\<lambda>c. c \<noteq> CHR '':'') input,
                 pathname = [], search = [], hash = [], searchParams = []\<rparr>
      else plain_URL input base)"

definition example_url :: "string \<Rightarrow> url" where
  "example_url p =
     \<lparr>href = ''https://trocco.io/api/'' @ p, pathname = p, search = [], hash = [],
      searchParams = []\<rparr>"

definition example_client :: client where
  "example_client =
     \<lparr>baseUrl = ''https://trocco.io/api/'', apiKey = ''secret'', timeoutMs = 45000,
      TROCCO_AUTH_HEADER = ''Authorization'', TROCCO_AUTH_SCHEME = ''Token'',
      TROCCO_EXTRA_HEADERS = []\<rparr>"

text \<open>
  Jobs, the bodies the example servers send, and what \<open>JSON.parse\<close> makes of them: the
  text \<open>{"msg":"x"}\<close>, a listing of two jobs, and a detail record with an S3 input.
\<close>

definition example_job :: "int \<Rightarrow> string \<Rightarrow> string \<Rightarrow> job" where
  "example_job n nm d =
     \<lparr>item_id = NumId n, item_name = Some nm, item_description = Some d,
      item_input_option_type = Some ''s3'', item_output_option_type = Some ''snowflake'',
      item_created_by = None\<rparr>"

definition msg_text :: string where
  "msg_text = ''{\"msg\":\"x\"}''"

definition msg_payload :: payload where
  "msg_payload = \<lparr>items = None, next_cursor = None, body_json = JObj [(''msg'', JStr ''x'')]\<rparr>"

definition listing_payload :: payload where
  "listing_payload =
     \<lparr>items = Some [example_job 1 ''nightly export'' ''Daily sales report'',
                    example_job 2 ''Sales sync'' []],
      next_cursor = None, body_json = JObj []\<rparr>"

definition detail_payload :: payload where
  "detail_payload =
     \<lparr>items = None, next_cursor = None,
      body_json = JObj [(''input_option_type'', JStr ''s3''),
                        (''input_option'',
                         JObj [(''s3_input_option'',
                                JObj [(''bucket'', JStr ''raw''), (''path_prefix'', JStr ''in/'')])])]\<rparr>"

definition example_parse :: "string \<Rightarrow> payload option" where
  "example_parse t =
     (if t = msg_text then Some msg_payload
      else if t = ''LIST'' then Some listing_payload
      else if t = ''DETAIL'' then Some detail_payload
      else None)"

text \<open>
  What a \<open>fetch\<close> meets: a reply with a status, a content type and a body; a network
  failure; and a reply with status 200 during which the given abort events occur.
\<close>

definition reply :: "nat \<Rightarrow> string \<Rightarrow> string \<Rightarrow> timeline" where
  "reply code content_type txt =
     \<lparr>tl_aborts = [],
      tl_transport = Responded \<lparr>r_status = code, r_statusText = [], r_url = [],
                                 r_headers = [(''content-type'', content_type)]\<rparr> (Inr txt),
      tl_durationMs = 0\<rparr>"

definition network_failure :: timeline where
  "network_failure =
     \<lparr>tl_aborts = [], tl_transport = Rejected (JsError ''fetch failed''), tl_durationMs = 0\<rparr>"

definition raced :: "abort_event list \<Rightarrow> timeline" where
  "raced evs = (reply 200 ''application/json'' msg_text)\<lparr>tl_aborts := evs\<rparr>"

definition example_summary :: "string \<Rightarrow> payload \<Rightarrow> summary" where
  "example_summary m d =
     \<lparr>sum_ok = True, sum_status = 200, sum_statusText = [], sum_url = [], sum_method = m,
      sum_durationMs = 0, sum_headers = [(''content-type'', ''application/json'')],
      sum_data = Some d, sum_text = None\<rparr>"

text \<open>
  Three servers: one that answers every request with the listing; one whose first
  request fails and that answers with the listing afterwards; and one that answers the
  listing endpoint with the listing, fails for the detail of job 1, and answers any
  other detail request with the detail record. \<open>quiet_platform\<close> has no network at all.
  The strings of the examples are ASCII, and the platforms of the examples lower-case
  the letters A to Z.
\<close>

definition listing_server :: "fetch_call list \<Rightarrow> fetch_call \<Rightarrow> timeline" where
  "listing_server log call = reply 200 ''application/json'' ''LIST''"

definition flaky_server :: "fetch_call list \<Rightarrow> fetch_call \<Rightarrow> timeline" where
  "flaky_server log call =
     (if log = [] then network_failure else reply 200 ''application/json'' ''LIST'')"

definition detail_server :: "fetch_call list \<Rightarrow> fetch_call \<Rightarrow> timeline" where
  "detail_server log call =
     (if pathname (fc_url call) = ''job_definitions'' then reply 200 ''application/json'' ''LIST''
      else if pathname (fc_url call) = ''job_definitions/1'' then network_failure
      else reply 200 ''application/json'' ''DETAIL'')"

definition example_platform :: "(fetch_call list \<Rightarrow> fetch_call \<Rightarrow> timeline) \<Rightarrow> platform" where
  "example_platform f =
     \<lparr>URL_new = plain_URL, JSON_parse = example_parse, JSON_stringify = (\<lambda>j. []),
      toLowerCase = ascii_lowercase, fetch = f\<rparr>"

definition quiet_platform :: platform where
  "quiet_platform =
     \<lparr>URL_new = plain_URL, JSON_parse = (\<lambda>t. None), JSON_stringify = (\<lambda>j. []),
      toLowerCase = ascii_lowercase, fetch = (\<lambda>log call. network_failure)\<rparr>"

text \<open>
  Requests: one that passes the caller's signal, not yet aborted, and one whose path is
  an absolute URL with an upper-case scheme.
\<close>

definition cancellable_request :: request_spec where
  "cancellable_request = (details_request (NumId 7))\<lparr>rq_signal := Some NotAborted\<rparr>"

definition evil_path :: string where
  "evil_path = ''HTTPS://evil.example/steal''"

definition evil_request :: request_spec where
  "evil_request = (details_request (NumId 7))\<lparr>rq_path := evil_path\<rparr>"

section \<open>Facts about strings and chunks\<close>

lemma startsWith_iff: "startsWith s p \<longleftrightarrow> (\<exists>r. s = p @ r)"
  by (induction s p rule: startsWith.induct) auto

lemma includes_str_iff: "includes_str s t \<longleftrightarrow> (\<exists>u v. s = u @ t @ v)"
proof (induction s)
  case Nil
  then show ?case by auto
next
  case (Cons c cs)
  show ?case
  proof
    assume "includes_str (c # cs) t"
    then consider "startsWith (c # cs) t" | "includes_str cs t" by auto
    then show "\<exists>u v. c # cs = u @ t @ v"
    proof cases
      case 1
      then obtain r where "c # cs = t @ r" by (auto simp: startsWith_iff)
      then have "c # cs = [] @ t @ r" by simp
      then show ?thesis by blast
    next
      case 2
      then obtain u v where "cs = u @ t @ v" using Cons.IH by blast
      then have "c # cs = (c # u) @ t @ v" by simp
      then show ?thesis by blast
    qed
  next
    assume "\<exists>u v. c # cs = u @ t @ v"
    then obtain u v where uv: "c # cs = u @ t @ v" by blast
    show "includes_str (c # cs) t"
    proof (cases u)
      case Nil
      with uv have "startsWith (c # cs) t" by (auto simp: startsWith_iff)
      then show ?thesis by simp
    next
      case (Cons a u')
      with uv have "cs = u' @ t @ v" by simp
      then have "includes_str cs t" using Cons.IH by blast
      then show ?thesis by simp
    qed
  qed
qed

lemma chunk_loop_eq:
  "chunk_loop s i acc = acc @ map (\<lambda>k. take 3 (drop k s)) [i ..< length s - 2]"
proof (induction s i acc rule: chunk_loop.induct)
  case (1 s i acc)
  show ?case
  proof (cases "int i < int (length s) - 2")
    case True
    then have lt: "i < length s - 2" by linarith
    have sub: "substring s i (i + 3) = take 3 (drop i s)"
      using lt by (simp add: substring_def Let_def min_def max_def)
    have "chunk_loop s i acc = chunk_loop s (i + 1) (acc @ [substring s i (i + 3)])"
      using True by (subst chunk_loop.simps) simp
    also have "\<dots> = (acc @ [substring s i (i + 3)]) @ map (\<lambda>k. take 3 (drop k s)) [i + 1 ..< length s - 2]"
      using 1 True by simp
    also have "\<dots> = acc @ map (\<lambda>k. take 3 (drop k s)) [i ..< length s - 2]"
      using lt sub by (simp add: upt_conv_Cons)
    finally show ?thesis .
  next
    case False
    then have "\<not> i < length s - 2" by linarith
    then show ?thesis using False by (subst chunk_loop.simps) simp
  qed
qed

section \<open>Facts about deduplication\<close>

lemma findIndex_from_ge: "findIndex_from p xs i = - 1 \<or> i \<le> findIndex_from p xs i"
  by (induction xs arbitrary: i) (auto, force)

lemma findIndex_from_iff:
  "0 \<le> i \<Longrightarrow> findIndex_from p xs i = i + int k \<longleftrightarrow>
     (k < length xs \<and> p (xs ! k) \<and> (\<forall>j<k. \<not> p (xs ! j)))"
proof (induction xs arbitrary: i k)
  case Nil
  then show ?case by simp
next
  case (Cons x xs)
  show ?case
  proof (cases "p x")
    case True
    then show ?thesis by (cases k) auto
  next
    case False
    show ?thesis
    proof (cases k)
      case 0
      have "findIndex_from p xs (i + 1) \<noteq> i"
        using findIndex_from_ge [of p xs "i + 1"] Cons.prems by auto
      then show ?thesis using False 0 by simp
    next
      case (Suc k')
      have "findIndex_from p xs (i + 1) = (i + 1) + int k' \<longleftrightarrow>
              (k' < length xs \<and> p (xs ! k') \<and> (\<forall>j<k'. \<not> p (xs ! j)))"
        using Cons.IH [of "i + 1" k'] Cons.prems by simp
      moreover have "(\<forall>j<Suc k'. \<not> p ((x # xs) ! j)) \<longleftrightarrow> (\<forall>j<k'. \<not> p (xs ! j))"
        using False by (auto simp: less_Suc_eq_0_disj)
      ultimately show ?thesis using False Suc by (simp add: add.assoc)
    qed
  qed
qed

lemma findIndex_iff:
  "findIndex p xs = int k \<longleftrightarrow> (k < length xs \<and> p (xs ! k) \<and> (\<forall>j<k. \<not> p (xs ! j)))"
  using findIndex_from_iff [of 0 p xs k] by (simp add: findIndex_def)

lemma uniqueMatches_positions:
  "uniqueMatches xs = map (\<lambda>i. xs ! i) (filter (first_occurrence xs) [0 ..< length xs])"
proof -
  have "filter (\<lambda>(index, match). findIndex (\<lambda>m. item_id m = item_id match) xs = int index)
          (enumerate 0 xs)
        = map (\<lambda>i. (i, xs ! i)) (filter (first_occurrence xs) [0 ..< length xs])"
  proof -
    have e: "enumerate 0 xs = map (\<lambda>i. (i, xs ! i)) [0 ..< length xs]"
      by (rule nth_equalityI) (simp_all add: nth_enumerate_eq)
    have "filter (\<lambda>(index, match). findIndex (\<lambda>m. item_id m = item_id match) xs = int index)
            (map (\<lambda>i. (i, xs ! i)) [0 ..< length xs])
          = map (\<lambda>i. (i, xs ! i))
              (filter (\<lambda>i. findIndex (\<lambda>m. item_id m = item_id (xs ! i)) xs = int i) [0 ..< length xs])"
      by (simp add: filter_map comp_def)
    also have "filter (\<lambda>i. findIndex (\<lambda>m. item_id m = item_id (xs ! i)) xs = int i) [0 ..< length xs]
          = filter (first_occurrence xs) [0 ..< length xs]"
      by (rule filter_cong) (auto simp: findIndex_iff first_occurrence_def)
    finally show ?thesis using e by simp
  qed
  then show ?thesis by (simp add: uniqueMatches_def comp_def)
qed

lemma uniqueMatches_distinct_ids: "distinct (map item_id (uniqueMatches xs))"
proof -
  have "distinct (filter (first_occurrence xs) [0 ..< length xs])" by simp
  moreover have "inj_on (\<lambda>i. item_id (xs ! i)) (set (filter (first_occurrence xs) [0 ..< length xs]))"
  proof (rule inj_onI)
    fix i k
    assume i: "i \<in> set (filter (first_occurrence xs) [0 ..< length xs])"
       and k: "k \<in> set (filter (first_occurrence xs) [0 ..< length xs])"
       and eq: "item_id (xs ! i) = item_id (xs ! k)"
    show "i = k"
    proof (rule ccontr)
      assume "i \<noteq> k"
      then consider "i < k" | "k < i" by linarith
      then show False
        using i k eq by cases (auto simp: first_occurrence_def)
    qed
  qed
  ultimately show ?thesis
    by (simp add: uniqueMatches_positions distinct_map comp_def)
qed

lemma uniqueMatches_fixed:
  assumes "distinct (map item_id xs)"
  shows "uniqueMatches xs = xs"
proof -
  have "filter (first_occurrence xs) [0 ..< length xs] = [0 ..< length xs]"
  proof (rule filter_True, clarsimp simp: first_occurrence_def)
    fix i j assume "i < length xs" "j < i" "item_id (xs ! j) = item_id (xs ! i)"
    then have "map item_id xs ! j = map item_id xs ! i" "j < length (map item_id xs)"
        "i < length (map item_id xs)" "j \<noteq> i" by simp_all
    then show False using nth_eq_iff_index_eq [OF assms, of j i] by blast
  qed
  then show ?thesis by (simp add: uniqueMatches_positions map_nth)
qed

lemma uniqueMatches_idem: "uniqueMatches (uniqueMatches xs) = uniqueMatches xs"
  by (rule uniqueMatches_fixed) (rule uniqueMatches_distinct_ids)

section \<open>Facts about requests and signals\<close>

lemma request_log: "fst (request pf cl log spec) = log @ issued pf cl spec"
  by (simp add: request_def issued_def Let_def split: sum.splits prod.splits)

lemma run_aborts_length: "length (run_aborts st p) = length st"
  by (induction st p rule: run_aborts.induct) (simp_all add: run_aborts.simps)

lemma run_aborts_keeps:
  "k < length st \<Longrightarrow> aborted (st ! k) \<Longrightarrow> run_aborts st p ! k = st ! k"
proof (induction st p rule: run_aborts.induct)
  case (1 st)
  then show ?case by (simp add: run_aborts.simps)
next
  case (2 st i r pending)
  show ?case
  proof (cases "i < length st \<and> \<not> aborted (st ! i)")
    case True
    then have ne: "i \<noteq> k" using "2.prems" by auto
    define st' where "st' = st[i := \<lparr>aborted = True,
                       reason = Some (case r of None \<Rightarrow> default_abort_error | Some e \<Rightarrow> e),
                       listeners = []\<rparr>]"
    have same: "st' ! k = st ! k" using ne by (simp add: st'_def)
    have "run_aborts st'
            (map (\<lambda>c. (c, Some (case r of None \<Rightarrow> default_abort_error | Some e \<Rightarrow> e)))
                 (listeners (st ! i)) @ pending) ! k = st' ! k"
      unfolding st'_def
      using True "2.prems" ne by (intro "2.IH"(1)) simp_all
    then show ?thesis using True same by (simp add: run_aborts.simps st'_def)
  next
    case False
    then have "run_aborts st ((i, r) # pending) = run_aborts st pending"
      by (auto simp: run_aborts.simps)
    then show ?thesis using False "2.IH"(2) "2.prems" by simp
  qed
qed

lemma deliver_length: "length (deliver ms c h st ev) = length st"
  by (cases ev) (simp_all add: run_aborts_length)

lemma deliver_keeps:
  "k < length st \<Longrightarrow> aborted (st ! k) \<Longrightarrow> deliver ms c h st ev ! k = st ! k"
  by (cases ev) (simp_all add: run_aborts_keeps)

lemma foldl_deliver_keeps:
  "k < length st \<Longrightarrow> aborted (st ! k) \<Longrightarrow> foldl (deliver ms c h) st evs ! k = st ! k"
proof (induction evs arbitrary: st)
  case Nil
  then show ?case by simp
next
  case (Cons ev evs)
  have "foldl (deliver ms c h) (deliver ms c h st ev) evs ! k = deliver ms c h st ev ! k"
    using Cons.prems by (intro Cons.IH) (simp_all add: deliver_length deliver_keeps)
  then show ?case using Cons.prems by (simp add: deliver_keeps)
qed

lemma signals_none: "request_signals None = ([fresh_signal], 0, 0)"
  by (simp add: request_signals_def signal_store_def)

lemma signals_pending:
  "request_signals (Some NotAborted) =
     ([fresh_signal\<lparr>listeners := [2]\<rparr>, fresh_signal\<lparr>listeners := [2]\<rparr>, fresh_signal], 1, 2)"
  by (simp add: request_signals_def signal_store_def anySignal_def addEventListener_def
      fresh_signal_def run_aborts.simps)

lemma signals_aborted:
  "request_signals (Some (AlreadyAborted e)) =
     ([\<lparr>aborted = True, reason = Some e, listeners = []\<rparr>, fresh_signal\<lparr>listeners := [2]\<rparr>,
       \<lparr>aborted = True, reason = Some e, listeners = []\<rparr>], 1, 2)"
  by (simp add: request_signals_def signal_store_def anySignal_def addEventListener_def
      fresh_signal_def run_aborts.simps)

section \<open>Facts about the strategies\<close>

lemma substring_window: "i + 3 \<le> length s \<Longrightarrow> substring s i (i + 3) = take 3 (drop i s)"
  by (simp add: substring_def Let_def min_def max_def)

lemma chunks_of_eq:
  "chunks_of s = map (\<lambda>k. take 3 (drop k s)) [0 ..< length s - 2]
                 @ [take (length s div 2) s, drop (length s div 2) s]"
  by (simp add: chunks_of_def chunk_loop_eq substring_def substring_from_def Let_def min_def max_def)

lemma windows_set:
  "set (map (\<lambda>k. take 3 (drop k s)) [0 ..< length s - 2])
     = {w. length w = 3 \<and> (\<exists>u v. s = u @ w @ v)}"
proof (intro set_eqI iffI)
  fix w
  assume "w \<in> set (map (\<lambda>k. take 3 (drop k s)) [0 ..< length s - 2])"
  then obtain k where k: "k < length s - 2" and w: "w = take 3 (drop k s)" by auto
  have "length w = 3" using k w by simp
  moreover have "s = take k s @ w @ drop 3 (drop k s)"
    unfolding w by (simp only: append_take_drop_id)
  ultimately show "w \<in> {w. length w = 3 \<and> (\<exists>u v. s = u @ w @ v)}" by blast
next
  fix w
  assume "w \<in> {w. length w = 3 \<and> (\<exists>u v. s = u @ w @ v)}"
  then obtain u v where len: "length w = 3" and s: "s = u @ w @ v" by blast
  have "length u < length s - 2" using len s by simp
  moreover have "take 3 (drop (length u) s) = w" using len s by simp
  ultimately show "w \<in> set (map (\<lambda>k. take 3 (drop k s)) [0 ..< length s - 2])"
    by force
qed

lemma foldl_Set_add_set: "set (foldl Set_add acc xs) = set acc \<union> set xs"
  by (induction xs arbitrary: acc) (auto simp: Set_add_def)

lemma foldl_Set_add_distinct: "distinct acc \<Longrightarrow> distinct (foldl Set_add acc xs)"
  by (induction xs arbitrary: acc) (auto simp: Set_add_def)

lemma new_Set_set: "set (new_Set xs) = set xs"
  by (simp add: new_Set_def foldl_Set_add_set)

lemma new_Set_distinct: "distinct (new_Set xs)"
  by (simp add: new_Set_def foldl_Set_add_distinct)

lemma new_Set_snoc:
  "new_Set (xs @ [x]) = (if x \<in> set xs then new_Set xs else new_Set xs @ [x])"
  using new_Set_set [of xs] by (simp add: new_Set_def Set_add_def)

lemma name_contains_loop_log:
  "\<exists>n\<le>length cs.
      fst (name_contains_loop s pf cl t mb cs (log, st))
        = log @ concat (map (\<lambda>c. issued pf cl (name_contains_request c)) (take n cs))
    \<and> min (length cs) (mb - batchesSearched st) \<le> n
    \<and> ((\<forall>c l. \<exists>r. snd (request pf cl l (name_contains_request c)) = Inr r)
          \<longrightarrow> n = min (length cs) (mb - batchesSearched st))"
proof (induction cs arbitrary: log st)
  case Nil
  then show ?case by simp
next
  case (Cons c cs)
  let ?iss = "\<lambda>c. issued pf cl (name_contains_request c)"
  let ?nofail = "\<forall>c l. \<exists>r. snd (request pf cl l (name_contains_request c)) = Inr r"
  show ?case
  proof (cases "batchesSearched st \<ge> mb")
    case True
    then have "fst (name_contains_loop s pf cl t mb (c # cs) (log, st))
                 = log @ concat (map ?iss (take 0 (c # cs)))"
      and "min (length (c # cs)) (mb - batchesSearched st) \<le> 0" by simp_all
    then show ?thesis by (metis le0 le_zero_eq)
  next
    case False
    obtain log' res where rq: "request pf cl log (name_contains_request c) = (log', res)"
      by (cases "request pf cl log (name_contains_request c)")
    have log': "log' = log @ ?iss c" using request_log [of pf cl log "name_contains_request c"] rq by simp
    show ?thesis
    proof (cases res)
      case (Inl e)
      obtain n where n: "n \<le> length cs"
        "fst (name_contains_loop s pf cl t mb cs (log', st)) = log' @ concat (map ?iss (take n cs))"
        "min (length cs) (mb - batchesSearched st) \<le> n"
        using Cons.IH [of log' st] by blast
      have "fst (name_contains_loop s pf cl t mb (c # cs) (log, st))
              = log @ concat (map ?iss (take (Suc n) (c # cs)))"
        using False rq Inl n(2) log' by simp
      moreover have "min (length (c # cs)) (mb - batchesSearched st) \<le> Suc n" using n(3) by simp
      moreover have "\<not> ?nofail" using rq Inl by (metis Inl_Inr_False snd_conv)
      moreover have "Suc n \<le> length (c # cs)" using n(1) by simp
      ultimately show ?thesis by blast
    next
      case (Inr r)
      let ?st' = "record_batch pf s t st (response_items r)"
      have bs: "batchesSearched ?st' = batchesSearched st + 1" by (simp add: record_batch_def)
      obtain n where n: "n \<le> length cs"
        "fst (name_contains_loop s pf cl t mb cs (log', ?st')) = log' @ concat (map ?iss (take n cs))"
        "min (length cs) (mb - batchesSearched ?st') \<le> n"
        "?nofail \<longrightarrow> n = min (length cs) (mb - batchesSearched ?st')"
        using Cons.IH [of log' ?st'] by blast
      have "fst (name_contains_loop s pf cl t mb (c # cs) (log, st))
              = log @ concat (map ?iss (take (Suc n) (c # cs)))"
        using False rq Inr n(2) log' by simp
      moreover have "min (length (c # cs)) (mb - batchesSearched st) \<le> Suc n"
        using n(3) bs False by simp
      moreover have "?nofail \<longrightarrow> Suc n = min (length (c # cs)) (mb - batchesSearched st)"
        using n(4) bs False by auto
      moreover have "Suc n \<le> length (c # cs)" using n(1) by simp
      ultimately show ?thesis by blast
    qed
  qed
qed

lemma name_contains_loop_independent:
  "batchesSearched st = batchesSearched st'
   \<Longrightarrow> fst (name_contains_loop s pf cl t mb cs (log, st))
         = fst (name_contains_loop s' pf cl t' mb cs (log, st'))
     \<and> batchesSearched (snd (name_contains_loop s pf cl t mb cs (log, st)))
         = batchesSearched (snd (name_contains_loop s' pf cl t' mb cs (log, st')))"
proof (induction cs arbitrary: log st st')
  case Nil
  then show ?case by simp
next
  case (Cons c cs)
  show ?case
  proof (cases "batchesSearched st \<ge> mb")
    case True
    then show ?thesis using Cons.prems by simp
  next
    case False
    obtain log' res where rq: "request pf cl log (name_contains_request c) = (log', res)"
      by (cases "request pf cl log (name_contains_request c)")
    show ?thesis
    proof (cases res)
      case (Inl e)
      then show ?thesis using False rq Cons.prems Cons.IH [of st st' log'] by simp
    next
      case (Inr r)
      have "batchesSearched (record_batch pf s t st (response_items r))
              = batchesSearched (record_batch pf s' t' st' (response_items r))"
        using Cons.prems by (simp add: record_batch_def)
      then show ?thesis using False rq Inr Cons.prems
          Cons.IH [of "record_batch pf s t st (response_items r)"
                      "record_batch pf s' t' st' (response_items r)" log']
        by simp
    qed
  qed
qed

lemma searchParams_set_mem: "(k, v) \<in> set (searchParams_set ps k v)"
  by (induction ps) auto

lemma searchParams_set_other:
  "k \<noteq> k' \<Longrightarrow> (k, v) \<in> set ps \<Longrightarrow> (k, v) \<in> set (searchParams_set ps k' v')"
  by (induction ps) auto

lemma buildUrl_job_definitions:
  "URL_new pf ''job_definitions'' (Some (baseUrl cl)) = Inr u
   \<Longrightarrow> buildUrl pf cl ''job_definitions'' (Some q)
         = Inr (u\<lparr>searchParams := foldl add_query (searchParams u) q\<rparr>)"
  by (simp add: buildUrl_def normalizedPath_def)

lemma issued_name_contains:
  assumes "URL_new pf ''job_definitions'' (Some (baseUrl cl)) = Inr u"
  shows "\<exists>call. issued pf cl (name_contains_request chunk) = [call]
           \<and> fc_method call = ''GET''
           \<and> searchParams (fc_url call)
               = searchParams_set (searchParams_set (searchParams u) ''name_contains'' chunk)
                   ''limit'' (String_int 200)"
  using buildUrl_job_definitions [OF assms]
  by (simp add: issued_def name_contains_request_def job_definitions_request_def
      requestInit_def add_query_def)

lemma String_int_200: "String_int 200 = ''200''"
  by (simp add: String_int_def String_nat.simps digit_char_def)

lemma keyword_chunks_single: "keyword_chunks_list [c] = [[], [c]]"
  by (simp add: keyword_chunks_list_def chunks_of_eq new_Set_def Set_add_def)

lemma example_chunks: "chunks_of ''abcde'' = [''abc'', ''bcd'', ''cde'', ''ab'', ''cde'']"
  by code_simp

lemma example_keyword_chunks: "keyword_chunks_list ''abcde'' = [''abc'', ''bcd'', ''cde'', ''ab'']"
  by code_simp

lemma scan_keyword_chunks:
  "scan pf cl searchTerm keyword_chunks maxBatches
     = name_contains_loop keyword_chunks pf cl (toLowerCase pf searchTerm) maxBatches
         (keyword_chunks_list searchTerm)
         ([], \<lparr>allMatches = [], totalScanned = 0, batchesSearched = 0\<rparr>)"
  by (simp add: scan_def)

lemma scan_alphabet_sweep:
  "scan pf cl searchTerm alphabet_sweep maxBatches
     = name_contains_loop alphabet_sweep pf cl (toLowerCase pf searchTerm) maxBatches letters
         ([], \<lparr>allMatches = [], totalScanned = 0, batchesSearched = 0\<rparr>)"
  by (simp add: scan_def)

lemma foldl_deliver_length: "length (foldl (deliver ms c h) st evs) = length st"
  by (induction evs arbitrary: st) (simp_all add: deliver_length)

lemma settle_aborted:
  assumes "k < length st" "aborted (st ! k)" "reason (st ! k) = Some e"
  shows "settle (foldl (deliver ms c h) st evs) k tr = Rejected e"
  using assms foldl_deliver_keeps [of k st ms c h evs] by (simp add: settle_def)

lemma request_undisturbed:
  assumes url: "buildUrl pf cl (rq_path spec) (rq_query spec) = Inr u"
    and quiet: "tl_aborts (fetch pf log (requestInit pf cl spec u)) = []"
    and sg: "\<forall>e. rq_signal spec \<noteq> Some (AlreadyAborted e)"
  shows "request pf cl log spec
           = (log @ [requestInit pf cl spec u],
              conclude pf (rq_method spec) (rq_responseType spec) (requestContext cl spec u)
                (tl_durationMs (fetch pf log (requestInit pf cl spec u)))
                (tl_transport (fetch pf log (requestInit pf cl spec u))))"
proof (cases "rq_signal spec")
  case None
  then show ?thesis using url quiet
    by (simp add: request_def signals_none settle_def fresh_signal_def Let_def)
next
  case (Some s)
  then have "rq_signal spec = Some NotAborted" using sg by (cases s) auto
  then show ?thesis using url quiet
    by (simp add: request_def signals_pending settle_def fresh_signal_def Let_def)
qed

lemma request_aborted:
  assumes url: "buildUrl pf cl (rq_path spec) (rq_query spec) = Inr u"
    and sigs: "request_signals (rq_signal spec) = (st0, controller, composite)"
    and first: "tl_aborts (fetch pf log (requestInit pf cl spec u)) = ev # later"
    and hit: "composite < length st0"
      "aborted (deliver (effective_timeout cl spec) controller (rq_signal spec \<noteq> None) st0 ev ! composite)"
      "reason (deliver (effective_timeout cl spec) controller (rq_signal spec \<noteq> None) st0 ev ! composite) = Some e"
  shows "request pf cl log spec
           = (log @ [requestInit pf cl spec u], Inl (wrap_error (requestContext cl spec u) e))"
proof -
  let ?d = "deliver (effective_timeout cl spec) controller (rq_signal spec \<noteq> None)"
  have "settle (foldl ?d (?d st0 ev) later) composite
          (tl_transport (fetch pf log (requestInit pf cl spec u))) = Rejected e"
    using hit by (intro settle_aborted) (simp_all add: deliver_length)
  then show ?thesis using url sigs first
    by (simp add: request_def Let_def conclude_def)
qed

lemma request_already_aborted:
  assumes url: "buildUrl pf cl (rq_path spec) (rq_query spec) = Inr u"
    and sg: "rq_signal spec = Some (AlreadyAborted e)"
  shows "request pf cl log spec
           = (log @ [requestInit pf cl spec u], Inl (wrap_error (requestContext cl spec u) e))"
proof -
  let ?st0 = "[\<lparr>aborted = True, reason = Some e, listeners = []\<rparr>, fresh_signal\<lparr>listeners := [2]\<rparr>,
       \<lparr>aborted = True, reason = Some e, listeners = []\<rparr>]"
  have "settle (foldl (deliver (effective_timeout cl spec) 1 True) ?st0
                  (tl_aborts (fetch pf log (requestInit pf cl spec u)))) 2
          (tl_transport (fetch pf log (requestInit pf cl spec u))) = Rejected e"
    by (intro settle_aborted) simp_all
  then show ?thesis using url sg
    by (simp add: request_def Let_def conclude_def signals_aborted)
qed

lemma external_abort_hits:
  "deliver ms 1 True [fresh_signal\<lparr>listeners := [2]\<rparr>, fresh_signal\<lparr>listeners := [2]\<rparr>, fresh_signal]
     (ExternalAborted r) ! 2
   = \<lparr>aborted = True, reason = Some (case r of None \<Rightarrow> default_abort_error | Some e \<Rightarrow> e),
      listeners = []\<rparr>"
  by (simp add: run_aborts.simps fresh_signal_def)

lemma timer_hits_composite:
  "deliver ms 1 True [fresh_signal\<lparr>listeners := [2]\<rparr>, fresh_signal\<lparr>listeners := [2]\<rparr>, fresh_signal]
     TimerFired ! 2
   = \<lparr>aborted = True, reason = Some (timeout_error ms), listeners = []\<rparr>"
  by (simp add: run_aborts.simps fresh_signal_def)

lemma timer_hits_controller:
  "deliver ms 0 False [fresh_signal] TimerFired ! 0
   = \<lparr>aborted = True, reason = Some (timeout_error ms), listeners = []\<rparr>"
  by (simp add: run_aborts.simps fresh_signal_def)

lemma request_first_abort_event:
  assumes url: "buildUrl pf cl (rq_path spec) (rq_query spec) = Inr u"
    and handle: "rq_signal spec = Some NotAborted"
  shows "(tl_aborts (fetch pf log (requestInit pf cl spec u)) = ExternalAborted (Some e) # later
            \<longrightarrow> request pf cl log spec
                  = (log @ [requestInit pf cl spec u],
                     Inl (TroccoApiError
                            \<lparr>err_message = message e, err_request = requestContext cl spec u,
                             err_response = None, err_cause = Some e\<rparr>)))
       \<and> (tl_aborts (fetch pf log (requestInit pf cl spec u)) = ExternalAborted None # later
            \<longrightarrow> request pf cl log spec
                  = (log @ [requestInit pf cl spec u],
                     Inl (TroccoApiError
                            \<lparr>err_message = message default_abort_error,
                             err_request = requestContext cl spec u,
                             err_response = None, err_cause = Some default_abort_error\<rparr>)))
       \<and> (tl_aborts (fetch pf log (requestInit pf cl spec u)) = TimerFired # later
            \<longrightarrow> request pf cl log spec
                  = (log @ [requestInit pf cl spec u],
                     Inl (TroccoApiError
                            \<lparr>err_message = ''Trocco API request timed out after ''
                                             @ String_nat (effective_timeout cl spec) @ '' ms'',
                             err_request = requestContext cl spec u,
                             err_response = None,
                             err_cause = Some (timeout_error (effective_timeout cl spec))\<rparr>)))"
proof -
  have sigs: "request_signals (rq_signal spec)
     = ([fresh_signal\<lparr>listeners := [2]\<rparr>, fresh_signal\<lparr>listeners := [2]\<rparr>, fresh_signal], 1, 2)"
    using handle by (simp add: signals_pending)
  let ?st0 = "[fresh_signal\<lparr>listeners := [2]\<rparr>, fresh_signal\<lparr>listeners := [2]\<rparr>, fresh_signal]"
  have caller: "(rq_signal spec \<noteq> None) = True" using handle by simp
  have size: "2 < length ?st0" by simp
  have ext: "request pf cl log spec
               = (log @ [requestInit pf cl spec u],
                  Inl (wrap_error (requestContext cl spec u)
                         (case r of None \<Rightarrow> default_abort_error | Some e \<Rightarrow> e)))"
    if first: "tl_aborts (fetch pf log (requestInit pf cl spec u)) = ExternalAborted r # later" for r
  proof -
    have h: "deliver (effective_timeout cl spec) 1 (rq_signal spec \<noteq> None) ?st0 (ExternalAborted r) ! 2
               = \<lparr>aborted = True,
                  reason = Some (case r of None \<Rightarrow> default_abort_error | Some e \<Rightarrow> e),
                  listeners = []\<rparr>"
      unfolding caller by (rule external_abort_hits)
    have h1: "aborted (deliver (effective_timeout cl spec) 1 (rq_signal spec \<noteq> None) ?st0
                (ExternalAborted r) ! 2)"
      unfolding h by simp
    have h2: "reason (deliver (effective_timeout cl spec) 1 (rq_signal spec \<noteq> None) ?st0
                (ExternalAborted r) ! 2)
              = Some (case r of None \<Rightarrow> default_abort_error | Some e \<Rightarrow> e)"
      unfolding h by simp
    show ?thesis by (rule request_aborted [OF url sigs first size h1 h2])
  qed
  have timer: "request pf cl log spec
               = (log @ [requestInit pf cl spec u],
                  Inl (wrap_error (requestContext cl spec u)
                         (timeout_error (effective_timeout cl spec))))"
    if first: "tl_aborts (fetch pf log (requestInit pf cl spec u)) = TimerFired # later"
  proof -
    have h: "deliver (effective_timeout cl spec) 1 (rq_signal spec \<noteq> None) ?st0 TimerFired ! 2
               = \<lparr>aborted = True, reason = Some (timeout_error (effective_timeout cl spec)),
                  listeners = []\<rparr>"
      unfolding caller by (rule timer_hits_composite)
    have h1: "aborted (deliver (effective_timeout cl spec) 1 (rq_signal spec \<noteq> None) ?st0
                TimerFired ! 2)"
      unfolding h by simp
    have h2: "reason (deliver (effective_timeout cl spec) 1 (rq_signal spec \<noteq> None) ?st0
                TimerFired ! 2) = Some (timeout_error (effective_timeout cl spec))"
      unfolding h by simp
    show ?thesis by (rule request_aborted [OF url sigs first size h1 h2])
  qed
  show ?thesis
  proof (intro conjI impI)
    assume a: "tl_aborts (fetch pf log (requestInit pf cl spec u)) = ExternalAborted (Some e) # later"
    show "request pf cl log spec
            = (log @ [requestInit pf cl spec u],
               Inl (TroccoApiError
                      \<lparr>err_message = message e, err_request = requestContext cl spec u,
                       err_response = None, err_cause = Some e\<rparr>))"
      unfolding ext [OF a] by (simp add: wrap_error_def)
  next
    assume a: "tl_aborts (fetch pf log (requestInit pf cl spec u)) = ExternalAborted None # later"
    show "request pf cl log spec
            = (log @ [requestInit pf cl spec u],
               Inl (TroccoApiError
                      \<lparr>err_message = message default_abort_error,
                       err_request = requestContext cl spec u,
                       err_response = None, err_cause = Some default_abort_error\<rparr>))"
      unfolding ext [OF a] by (simp add: wrap_error_def)
  next
    assume a: "tl_aborts (fetch pf log (requestInit pf cl spec u)) = TimerFired # later"
    show "request pf cl log spec
            = (log @ [requestInit pf cl spec u],
               Inl (TroccoApiError
                      \<lparr>err_message = ''Trocco API request timed out after ''
                                       @ String_nat (effective_timeout cl spec) @ '' ms'',
                       err_request = requestContext cl spec u,
                       err_response = None,
                       err_cause = Some (timeout_error (effective_timeout cl spec))\<rparr>))"
      unfolding timer [OF a] by (simp add: wrap_error_def timeout_error_def)
  qed
qed

lemma shouldParseJson_iff:
  "shouldParseJson response rt
     = (rt = ''json'' \<or> (rt \<noteq> ''text''
          \<and> (\<exists>ct. headers_get (r_headers response) ''content-type'' = Some ct
                \<and> (includes_str ct ''application/json'' \<or> includes_str ct ''+json''))))"
  by (auto simp: shouldParseJson_def split: option.splits)

lemma String_id_7: "String_int 7 = ''7''"
  by (simp add: String_int_def String_nat.simps digit_char_def)

lemma example_buildUrl_details:
  "buildUrl (example_platform f) example_client (rq_path (details_request (NumId 7)))
     (rq_query (details_request (NumId 7))) = Inr (example_url ''job_definitions/7'')"
  by (simp add: buildUrl_def normalizedPath_def example_platform_def plain_URL_def
      example_client_def details_request_def example_url_def String_id_7)

lemma example_buildUrl_cancellable:
  "buildUrl (example_platform f) example_client (rq_path cancellable_request)
     (rq_query cancellable_request) = Inr (example_url ''job_definitions/7'')"
  using example_buildUrl_details [of f] by (simp add: cancellable_request_def)

lemma String_nat_45000: "String_nat 45000 = ''45000''"
  by (simp add: String_nat.simps digit_char_def)

lemma length_letters: "length letters = 36"
  by (simp add: letters_def)

lemma request_success_issued:
  "snd (request pf cl log spec) = Inr r \<Longrightarrow> \<exists>call. issued pf cl spec = [call]"
  by (auto simp: request_def issued_def Let_def split: sum.splits prod.splits)

lemma length_concat_singletons:
  "(\<And>x. x \<in> set xs \<Longrightarrow> \<exists>y. f x = [y]) \<Longrightarrow> length (concat (map f xs)) = length xs"
proof (induction xs)
  case Nil
  then show ?case by simp
next
  case (Cons a xs)
  obtain y where "f a = [y]" using Cons.prems [of a] by auto
  moreover have "length (concat (map f xs)) = length xs"
    using Cons.prems by (intro Cons.IH) auto
  ultimately show ?case by simp
qed

lemma nth_concat_singletons:
  "(\<And>x. x \<in> set xs \<Longrightarrow> f x = [g x]) \<Longrightarrow> concat (map f xs) = map g xs"
  by (induction xs) auto

lemma strategy_filter_iff:
  "strategy_filter pf s t item
     \<longleftrightarrow> ((\<exists>u v. lower_name pf item = u @ t @ v)
          \<or> (s \<in> {exhaustive_scan, recent_first} \<and> (\<exists>u v. lower_description pf item = u @ t @ v)))"
  by (cases s)
     (simp_all add: strategy_filter_def name_or_description_filter_def name_filter_def
        lower_name_def lower_description_def includes_str_iff Let_def)

lemma tally_Nil:
  "tally pf s t [] = \<lparr>allMatches = [], totalScanned = 0, batchesSearched = 0\<rparr>"
  by (simp add: tally_def)

lemma batchesSearched_tally: "batchesSearched (tally pf s t batches) = length batches"
  by (simp add: tally_def)

lemma record_batch_tally:
  "record_batch pf s t (tally pf s t batches) its = tally pf s t (batches @ [its])"
  by (simp add: record_batch_def tally_def)

lemma name_contains_loop_tally:
  "name_contains_loop s pf cl t mb cs (log, tally pf s t batches)
   = (fst (name_contains_batches pf cl mb cs (log, batches)),
      tally pf s t (snd (name_contains_batches pf cl mb cs (log, batches))))"
proof (induction cs arbitrary: log batches)
  case Nil
  then show ?case by simp
next
  case (Cons c cs)
  obtain log' res where rq: "request pf cl log (name_contains_request c) = (log', res)"
    by (cases "request pf cl log (name_contains_request c)")
  show ?case
  proof (cases "mb \<le> length batches")
    case True
    then show ?thesis by (simp add: batchesSearched_tally)
  next
    case False
    show ?thesis
    proof (cases res)
      case (Inl e)
      then show ?thesis
        using False rq Cons.IH [of log' batches] by (simp add: batchesSearched_tally)
    next
      case (Inr r)
      then show ?thesis
        using False rq Cons.IH [of log' "batches @ [response_items r]"]
        by (simp add: batchesSearched_tally record_batch_tally)
    qed
  qed
qed

lemma recent_first_loop_tally:
  "recent_first_loop n pf cl t (log, tally pf recent_first t batches)
   = (fst (recent_first_batches n pf cl (log, batches)),
      tally pf recent_first t (snd (recent_first_batches n pf cl (log, batches))))"
proof (induction n arbitrary: log batches)
  case 0
  then show ?case by simp
next
  case (Suc n)
  obtain log' res where rq:
    "request pf cl log (job_definitions_request [(''limit'', QScalar (SNum 100))]) = (log', res)"
    by (cases "request pf cl log (job_definitions_request [(''limit'', QScalar (SNum 100))])")
  show ?case
  proof (cases res)
    case (Inl e)
    then show ?thesis using rq by simp
  next
    case (Inr r)
    show ?thesis
    proof (cases "response_items r = []")
      case True
      then show ?thesis using rq Inr by (simp add: record_batch_tally)
    next
      case False
      then show ?thesis
        using rq Inr Suc.IH [of log' "batches @ [response_items r]"]
        by (simp add: record_batch_tally)
    qed
  qed
qed

lemma exhaustive_scan_loop_tally:
  "exhaustive_scan_loop pf cl t mb cursor hasMore (fst lb, tally pf exhaustive_scan t (snd lb))
   = (fst (exhaustive_scan_batches pf cl mb cursor hasMore lb),
      tally pf exhaustive_scan t (snd (exhaustive_scan_batches pf cl mb cursor hasMore lb)))"
proof (induction pf cl mb cursor hasMore lb rule: exhaustive_scan_batches.induct)
  case (1 pf cl mb cursor hasMore log batches)
  let ?q = "job_definitions_request
              ([(''limit'', QScalar (SNum 100))]
               @ (if cursor_truthy cursor
                  then [(''cursor'', QScalar (SStr (case cursor of Some c \<Rightarrow> c | None \<Rightarrow> [])))]
                  else []))"
  obtain log' res where rq: "request pf cl log ?q = (log', res)"
    by (cases "request pf cl log ?q")
  show ?case
  proof (cases "hasMore \<and> length batches < mb")
    case False
    then show ?thesis
      by (subst exhaustive_scan_loop.simps, subst (1 2) exhaustive_scan_batches.simps)
         (auto simp: batchesSearched_tally)
  next
    case True
    show ?thesis
    proof (cases res)
      case (Inl e)
      then show ?thesis
        using True rq
        by (subst exhaustive_scan_loop.simps, subst (1 2) exhaustive_scan_batches.simps)
           (simp add: batchesSearched_tally)
    next
      case (Inr r)
      have step: "exhaustive_scan_loop pf cl t mb (response_next_cursor r)
                    (cursor_truthy (response_next_cursor r))
                    (log', tally pf exhaustive_scan t (batches @ [response_items r]))
                  = (fst (exhaustive_scan_batches pf cl mb (response_next_cursor r)
                            (cursor_truthy (response_next_cursor r))
                            (log', batches @ [response_items r])),
                     tally pf exhaustive_scan t
                       (snd (exhaustive_scan_batches pf cl mb (response_next_cursor r)
                               (cursor_truthy (response_next_cursor r))
                               (log', batches @ [response_items r]))))"
        using "1.IH" [OF True rq [symmetric] Inr] by simp
      show ?thesis
        using True rq Inr
        by (subst exhaustive_scan_loop.simps, subst (1 2) exhaustive_scan_batches.simps)
           (simp add: batchesSearched_tally record_batch_tally step)
    qed
  qed
qed

lemma scan_trace_tally:
  "scan pf cl searchTerm s maxBatches
   = (fst (scan_trace pf cl searchTerm s maxBatches),
      tally pf s (toLowerCase pf searchTerm) (scan_batches pf cl searchTerm s maxBatches))"
proof (cases s)
  case exhaustive_scan
  then show ?thesis
    using exhaustive_scan_loop_tally [of pf cl "toLowerCase pf searchTerm" maxBatches None True
        "([], [])"]
    by (simp add: scan_def scan_batches_def scan_trace_def tally_Nil)
next
  case keyword_chunks
  then show ?thesis
    using name_contains_loop_tally [of keyword_chunks pf cl "toLowerCase pf searchTerm" maxBatches
        "keyword_chunks_list searchTerm" "[]" "[]"]
    by (simp add: scan_def scan_batches_def scan_trace_def tally_Nil)
next
  case alphabet_sweep
  then show ?thesis
    using name_contains_loop_tally [of alphabet_sweep pf cl "toLowerCase pf searchTerm" maxBatches
        letters "[]" "[]"]
    by (simp add: scan_def scan_batches_def scan_trace_def tally_Nil)
next
  case recent_first
  then show ?thesis
    using recent_first_loop_tally [of maxBatches pf cl "toLowerCase pf searchTerm" "[]" "[]"]
    by (simp add: scan_def scan_batches_def scan_trace_def tally_Nil)
qed

lemma scan_tally:
  "snd (scan pf cl searchTerm s maxBatches)
   = tally pf s (toLowerCase pf searchTerm) (scan_batches pf cl searchTerm s maxBatches)"
  by (simp add: scan_trace_tally)

lemma scan_trace_log:
  "fst (scan pf cl searchTerm s maxBatches) = fst (scan_trace pf cl searchTerm s maxBatches)"
  by (simp add: scan_trace_tally)

lemma fetchJobDefinitionDetails_fst:
  "fst (fetchJobDefinitionDetails pf cl log jobId) = fst (request pf cl log (details_request jobId))"
  by (simp add: fetchJobDefinitionDetails_def split: prod.splits sum.splits)

lemma fetchJobDefinitionDetails_config:
  "(if truthy_opt (snd (fetchJobDefinitionDetails pf cl log jobId))
    then extractConfigDetails (snd (fetchJobDefinitionDetails pf cl log jobId)) else empty_config)
   = config_of_outcome (snd (request pf cl log (details_request jobId)))"
  by (simp add: fetchJobDefinitionDetails_def config_of_outcome_def truthy_opt_def
      split: prod.splits sum.splits)

lemma enrich_Cons:
  "enrich pf cl log (item # rest)
     = (fst (enrich pf cl (fst (request pf cl log (details_request (item_id item)))) rest),
        (item, config_of_outcome (snd (request pf cl log (details_request (item_id item)))))
        # snd (enrich pf cl (fst (request pf cl log (details_request (item_id item)))) rest))"
proof -
  obtain l d where f: "fetchJobDefinitionDetails pf cl log (item_id item) = (l, d)"
    by (cases "fetchJobDefinitionDetails pf cl log (item_id item)")
  obtain l' others where e: "enrich pf cl l rest = (l', others)"
    by (cases "enrich pf cl l rest")
  have l: "l = fst (request pf cl log (details_request (item_id item)))"
    using fetchJobDefinitionDetails_fst [of pf cl log "item_id item"] f by simp
  have c: "(if truthy_opt d then extractConfigDetails d else empty_config)
             = config_of_outcome (snd (request pf cl log (details_request (item_id item))))"
    using fetchJobDefinitionDetails_config [of pf cl log "item_id item"] unfolding f snd_conv .
  have "enrich pf cl log (item # rest)
          = (l', (item, if truthy_opt d then extractConfigDetails d else empty_config) # others)"
    using f e by simp
  then show ?thesis using e unfolding c l by simp
qed

lemma enrich_length: "length (snd (enrich pf cl log xs)) = length xs"
  by (induction xs arbitrary: log) (simp_all add: enrich_Cons del: enrich.simps(2))

lemma enrich_fst: "map fst (snd (enrich pf cl log xs)) = xs"
  by (induction xs arbitrary: log) (simp_all add: enrich_Cons del: enrich.simps(2))

lemma enrich_nth:
  "i < length xs
   \<Longrightarrow> snd (enrich pf cl log xs) ! i = (xs ! i, config_of_outcome (detail_outcome pf cl log xs i))"
proof (induction xs arbitrary: log i)
  case Nil
  then show ?case by simp
next
  case (Cons x xs)
  show ?case
  proof (cases i)
    case 0
    then show ?thesis by (simp add: enrich_Cons detail_outcome_def del: enrich.simps(2))
  next
    case (Suc k)
    then have "k < length xs" using Cons.prems by simp
    then show ?thesis
      using Cons.IH [of k "fst (request pf cl log (details_request (item_id x)))"] Suc
      by (simp add: enrich_Cons detail_outcome_def del: enrich.simps(2))
  qed
qed

lemma example_request:
  assumes "buildUrl (example_platform f) example_client (rq_path spec) (rq_query spec) = Inr u"
    and "rq_signal spec = None"
    and "tl_aborts (f log (requestInit (example_platform f) example_client spec u)) = []"
  shows "request (example_platform f) example_client log spec
           = (log @ [requestInit (example_platform f) example_client spec u],
              conclude (example_platform f) (rq_method spec) (rq_responseType spec)
                (requestContext example_client spec u)
                (tl_durationMs (f log (requestInit (example_platform f) example_client spec u)))
                (tl_transport (f log (requestInit (example_platform f) example_client spec u))))"
proof -
  have "fetch (example_platform f) = f" by (simp add: example_platform_def)
  then show ?thesis
    using request_undisturbed [of "example_platform f" example_client spec u log] assms by simp
qed

lemma conclude_reply_listing:
  "conclude (example_platform f) m ''auto'' ctx 0
     (Responded \<lparr>r_status = 200, r_statusText = [], r_url = [],
                  r_headers = [(''content-type'', ''application/json'')]\<rparr> (Inr ''LIST''))
   = Inr (example_summary m listing_payload)"
  by (simp add: conclude_def reply_def shouldParseJson_def headers_get_def ascii_lowercase_def
      ascii_lowercase_char_def response_ok_def example_platform_def example_parse_def msg_text_def
      toPlainHeaders_def obj_spread_def example_summary_def Let_def)

lemma conclude_reply_detail:
  "conclude (example_platform f) m ''auto'' ctx 0
     (Responded \<lparr>r_status = 200, r_statusText = [], r_url = [],
                  r_headers = [(''content-type'', ''application/json'')]\<rparr> (Inr ''DETAIL''))
   = Inr (example_summary m detail_payload)"
  by (simp add: conclude_def reply_def shouldParseJson_def headers_get_def ascii_lowercase_def
      ascii_lowercase_char_def response_ok_def example_platform_def example_parse_def msg_text_def
      toPlainHeaders_def obj_spread_def example_summary_def Let_def)

lemma conclude_network_failure:
  "conclude pf m rt ctx d (Rejected e) = Inl (wrap_error ctx e)"
  by (simp add: conclude_def)

lemma example_buildUrl_name_contains:
  "buildUrl (example_platform f) example_client (rq_path (name_contains_request c))
     (rq_query (name_contains_request c))
   = Inr ((example_url ''job_definitions'')\<lparr>searchParams := [(''name_contains'', c), (''limit'', ''200'')]\<rparr>)"
  by (simp add: buildUrl_def normalizedPath_def example_platform_def plain_URL_def
      example_client_def name_contains_request_def job_definitions_request_def example_url_def
      add_query_def String_int_200)

lemma String_int_100: "String_int 100 = ''100''"
  by (simp add: String_int_def String_nat.simps digit_char_def)

lemma example_buildUrl_limit:
  "buildUrl (example_platform f) example_client
     (rq_path (job_definitions_request [(''limit'', QScalar (SNum 100))]))
     (rq_query (job_definitions_request [(''limit'', QScalar (SNum 100))]))
   = Inr ((example_url ''job_definitions'')\<lparr>searchParams := [(''limit'', ''100'')]\<rparr>)"
  by (simp add: buildUrl_def normalizedPath_def example_platform_def plain_URL_def
      example_client_def job_definitions_request_def example_url_def
      add_query_def String_int_100)

lemma String_int_1: "String_int 1 = ''1''"
  by (simp add: String_int_def String_nat.simps digit_char_def)

lemma String_int_2: "String_int 2 = ''2''"
  by (simp add: String_int_def String_nat.simps digit_char_def)

lemma example_buildUrl_detail_1:
  "buildUrl (example_platform f) example_client (rq_path (details_request (NumId 1)))
     (rq_query (details_request (NumId 1))) = Inr (example_url ''job_definitions/1'')"
  by (simp add: buildUrl_def normalizedPath_def example_platform_def plain_URL_def
      example_client_def details_request_def example_url_def String_int_1)

lemma example_buildUrl_detail_2:
  "buildUrl (example_platform f) example_client (rq_path (details_request (NumId 2)))
     (rq_query (details_request (NumId 2))) = Inr (example_url ''job_definitions/2'')"
  by (simp add: buildUrl_def normalizedPath_def example_platform_def plain_URL_def
      example_client_def details_request_def example_url_def String_int_2)

lemma name_contains_request_fields:
  "rq_signal (name_contains_request c) = None"
  "rq_method (name_contains_request c) = ''GET''"
  "rq_responseType (name_contains_request c) = ''auto''"
  by (simp_all add: name_contains_request_def job_definitions_request_def)

lemma listing_request_name_contains:
  "request (example_platform listing_server) example_client log (name_contains_request c)
     = (log @ [requestInit (example_platform listing_server) example_client (name_contains_request c)
                 ((example_url ''job_definitions'')
                    \<lparr>searchParams := [(''name_contains'', c), (''limit'', ''200'')]\<rparr>)],
        Inr (example_summary ''GET'' listing_payload))"
  using example_request [OF example_buildUrl_name_contains name_contains_request_fields(1),
      of listing_server log c]
  by (simp add: listing_server_def conclude_reply_listing name_contains_request_fields
      reply_def)

lemma issued_name_contains_eq:
  assumes "URL_new pf ''job_definitions'' (Some (baseUrl cl)) = Inr u"
  shows "issued pf cl (name_contains_request chunk)
           = [requestInit pf cl (name_contains_request chunk)
                (u\<lparr>searchParams :=
                     searchParams_set (searchParams_set (searchParams u) ''name_contains'' chunk)
                       ''limit'' ''200''\<rparr>)]"
  using buildUrl_job_definitions [OF assms]
  by (simp add: issued_def name_contains_request_def job_definitions_request_def
      add_query_def String_int_200)

lemma flaky_request_first:
  "request (example_platform flaky_server) example_client [] (name_contains_request c)
     = ([requestInit (example_platform flaky_server) example_client (name_contains_request c)
           ((example_url ''job_definitions'')
              \<lparr>searchParams := [(''name_contains'', c), (''limit'', ''200'')]\<rparr>)],
        Inl (wrap_error
               (requestContext example_client (name_contains_request c)
                  ((example_url ''job_definitions'')
                     \<lparr>searchParams := [(''name_contains'', c), (''limit'', ''200'')]\<rparr>))
               (JsError ''fetch failed'')))"
  using example_request [OF example_buildUrl_name_contains name_contains_request_fields(1),
      of flaky_server "[]" c]
  by (simp add: flaky_server_def conclude_network_failure network_failure_def)

lemma flaky_request_later:
  "log \<noteq> []
   \<Longrightarrow> request (example_platform flaky_server) example_client log (name_contains_request c)
     = (log @ [requestInit (example_platform flaky_server) example_client (name_contains_request c)
                 ((example_url ''job_definitions'')
                    \<lparr>searchParams := [(''name_contains'', c), (''limit'', ''200'')]\<rparr>)],
        Inr (example_summary ''GET'' listing_payload))"
  using example_request [OF example_buildUrl_name_contains name_contains_request_fields(1),
      of flaky_server log c]
  by (simp add: flaky_server_def conclude_reply_listing name_contains_request_fields reply_def)

lemma name_contains_loop_budget_spent:
  "maxBatches \<le> batchesSearched st
   \<Longrightarrow> name_contains_loop s pf cl t maxBatches cs (log, st) = (log, st)"
  by (cases cs) simp_all

lemma letters_Cons: "letters = ''a'' # ''b'' # drop 2 letters"
  by (simp add: letters_def)

lemma keyword_chunks_sales: "keyword_chunks_list ''sales'' = [''sal'', ''ale'', ''les'', ''sa'']"
  by code_simp

lemma example_toLowerCase: "toLowerCase (example_platform f) = ascii_lowercase"
  by (simp add: example_platform_def)

lemma toLowerCase_sales: "toLowerCase (example_platform f) ''sales'' = ''sales''"
  unfolding example_toLowerCase by code_simp

lemma listing_items:
  "response_items (example_summary m listing_payload)
     = [example_job 1 ''nightly export'' ''Daily sales report'', example_job 2 ''Sales sync'' []]"
  by (simp add: response_items_def example_summary_def listing_payload_def)

lemma filter_name_job1:
  "\<not> strategy_filter (example_platform f) keyword_chunks ''sales'' (example_job 1 ''nightly export'' ''Daily sales report'')"
  by code_simp

lemma filter_name_job2:
  "strategy_filter (example_platform f) keyword_chunks ''sales'' (example_job 2 ''Sales sync'' [])"
  by code_simp

lemma filter_both_job1:
  "strategy_filter (example_platform f) exhaustive_scan ''sales'' (example_job 1 ''nightly export'' ''Daily sales report'')"
  by code_simp

lemma filter_both_job2:
  "strategy_filter (example_platform f) exhaustive_scan ''sales'' (example_job 2 ''Sales sync'' [])"
  by code_simp

lemma detail_server_quiet: "tl_aborts (detail_server log call) = []"
  by (simp add: detail_server_def reply_def network_failure_def)

lemma details_request_fields:
  "rq_signal (details_request i) = None"
  "rq_method (details_request i) = ''GET''"
  "rq_responseType (details_request i) = ''auto''"
  by (simp_all add: details_request_def)

lemma job_definitions_request_fields:
  "rq_signal (job_definitions_request q) = None"
  "rq_method (job_definitions_request q) = ''GET''"
  "rq_responseType (job_definitions_request q) = ''auto''"
  by (simp_all add: job_definitions_request_def)

lemma detail_server_listing:
  "request (example_platform detail_server) example_client log
     (job_definitions_request [(''limit'', QScalar (SNum 100))])
   = (log @ [requestInit (example_platform detail_server) example_client
               (job_definitions_request [(''limit'', QScalar (SNum 100))])
               ((example_url ''job_definitions'')\<lparr>searchParams := [(''limit'', ''100'')]\<rparr>)],
      Inr (example_summary ''GET'' listing_payload))"
  using example_request [OF example_buildUrl_limit job_definitions_request_fields(1),
      where f = detail_server and log = log]
  by (simp add: detail_server_def conclude_reply_listing job_definitions_request_fields reply_def
      requestInit_def example_url_def)

lemma detail_server_job_1:
  "snd (request (example_platform detail_server) example_client log (details_request (NumId 1)))
   = Inl (wrap_error (requestContext example_client (details_request (NumId 1))
                        (example_url ''job_definitions/1''))
            (JsError ''fetch failed''))"
  using example_request [OF example_buildUrl_detail_1 details_request_fields(1),
      where f = detail_server and log = log]
  by (simp add: detail_server_def conclude_network_failure details_request_fields
      network_failure_def requestInit_def example_url_def)

lemma detail_server_job_2:
  "snd (request (example_platform detail_server) example_client log (details_request (NumId 2)))
   = Inr (example_summary ''GET'' detail_payload)"
  using example_request [OF example_buildUrl_detail_2 details_request_fields(1),
      where f = detail_server and log = log]
  by (simp add: detail_server_def conclude_reply_detail details_request_fields reply_def
      requestInit_def example_url_def)

lemma detail_payload_config:
  "extractConfigDetails (map_option body_json (sum_data (example_summary m detail_payload)))
   = empty_config\<lparr>input_s3 := Some \<lparr>s3_bucket = Some (JStr ''raw''),
                                        s3_prefix = Some (JStr ''in/''), s3_region = None\<rparr>\<rparr>"
  by (simp add: extractConfigDetails_def example_summary_def detail_payload_def s3_entry_def
      snowflake_entry_def bigquery_entry_def getq_def truthy_opt_def or_js_def empty_config_def
      Let_def)

lemma detail_payload_truthy:
  "truthy_opt (map_option body_json (sum_data (example_summary m detail_payload)))"
  by (simp add: example_summary_def detail_payload_def truthy_opt_def)

lemma detail_server_scan:
  "scan (example_platform detail_server) example_client ''sales'' exhaustive_scan (Suc 0)
   = ([requestInit (example_platform detail_server) example_client
         (job_definitions_request [(''limit'', QScalar (SNum 100))])
         ((example_url ''job_definitions'')\<lparr>searchParams := [(''limit'', ''100'')]\<rparr>)],
      \<lparr>allMatches = [example_job 1 ''nightly export'' ''Daily sales report'',
                     example_job 2 ''Sales sync'' []],
       totalScanned = 2, batchesSearched = 1\<rparr>)"
proof -
  have c: "response_next_cursor (example_summary ''GET'' listing_payload) = None"
    by (simp add: response_next_cursor_def example_summary_def listing_payload_def)
  show ?thesis
    unfolding scan_def toLowerCase_sales
    by (simp add: Let_def)
       (simp add: exhaustive_scan_loop.simps cursor_truthy_def detail_server_listing c
          record_batch_def listing_items filter_both_job1 filter_both_job2)
qed

lemma name_contains_batches_budget_spent:
  "maxBatches \<le> length batches
   \<Longrightarrow> name_contains_batches pf cl maxBatches cs (log, batches) = (log, batches)"
  by (cases cs) simp_all

lemma listing_server_batches:
  "snd (name_contains_batches (example_platform listing_server) example_client (Suc 0) (c # cs)
          ([], []))
   = [[example_job 1 ''nightly export'' ''Daily sales report'', example_job 2 ''Sales sync'' []]]"
  by (simp add: listing_request_name_contains name_contains_batches_budget_spent listing_items)

lemma detail_server_scan_batches:
  "scan_batches (example_platform detail_server) example_client ''sales'' exhaustive_scan (Suc 0)
   = [[example_job 1 ''nightly export'' ''Daily sales report'', example_job 2 ''Sales sync'' []]]"
proof -
  have c: "response_next_cursor (example_summary ''GET'' listing_payload) = None"
    by (simp add: response_next_cursor_def example_summary_def listing_payload_def)
  show ?thesis
    by (simp add: scan_batches_def scan_trace_def exhaustive_scan_batches.simps cursor_truthy_def
        detail_server_listing c listing_items)
qed

lemma name_contains_loop_queries:
  "\<exists>n\<le>length cs.
      min (length cs) mb \<le> n
    \<and> fst (name_contains_loop s pf cl t mb cs
              ([], \<lparr>allMatches = [], totalScanned = 0, batchesSearched = 0\<rparr>))
        = concat (map (\<lambda>c. issued pf cl (name_contains_request c)) (take n cs))
    \<and> (URL_new pf ''job_definitions'' (Some (baseUrl cl)) = Inr u
        \<longrightarrow> length (fst (name_contains_loop s pf cl t mb cs
                            ([], \<lparr>allMatches = [], totalScanned = 0, batchesSearched = 0\<rparr>))) = n
            \<and> (\<forall>i<n. searchParams
                        (fc_url (fst (name_contains_loop s pf cl t mb cs
                                        ([], \<lparr>allMatches = [], totalScanned = 0,
                                              batchesSearched = 0\<rparr>)) ! i))
                       = searchParams_set
                           (searchParams_set (searchParams u) ''name_contains'' (cs ! i))
                           ''limit'' ''200''))
    \<and> ((\<forall>c l. \<exists>r. snd (request pf cl l (name_contains_request c)) = Inr r)
        \<longrightarrow> n = min (length cs) mb)"
proof -
  let ?st0 = "\<lparr>allMatches = [], totalScanned = 0, batchesSearched = 0\<rparr>"
  let ?iss = "\<lambda>c. issued pf cl (name_contains_request c)"
  let ?nofail = "\<forall>c l. \<exists>r. snd (request pf cl l (name_contains_request c)) = Inr r"
  let ?log = "fst (name_contains_loop s pf cl t mb cs ([], ?st0))"
  have "\<exists>n\<le>length cs.
          ?log = [] @ concat (map ?iss (take n cs))
        \<and> min (length cs) (mb - batchesSearched ?st0) \<le> n
        \<and> (?nofail \<longrightarrow> n = min (length cs) (mb - batchesSearched ?st0))"
    by (rule name_contains_loop_log)
  then obtain n where n: "n \<le> length cs" "min (length cs) mb \<le> n"
    "?log = concat (map ?iss (take n cs))"
    "?nofail \<longrightarrow> n = min (length cs) mb"
    by auto
  have url: "length ?log = n
              \<and> (\<forall>i<n. searchParams (fc_url (?log ! i))
                         = searchParams_set
                             (searchParams_set (searchParams u) ''name_contains'' (cs ! i))
                             ''limit'' ''200'')"
    if u: "URL_new pf ''job_definitions'' (Some (baseUrl cl)) = Inr u"
  proof -
    let ?g = "\<lambda>c. requestInit pf cl (name_contains_request c)
                (u\<lparr>searchParams :=
                     searchParams_set (searchParams_set (searchParams u) ''name_contains'' c)
                       ''limit'' ''200''\<rparr>)"
    have "concat (map ?iss (take n cs)) = map ?g (take n cs)"
      by (rule nth_concat_singletons) (rule issued_name_contains_eq [OF u])
    then have log: "?log = map ?g (take n cs)" using n(3) by simp
    have "length ?log = n" unfolding log using n(1) by simp
    moreover have "searchParams (fc_url (?log ! i))
                     = searchParams_set
                         (searchParams_set (searchParams u) ''name_contains'' (cs ! i))
                         ''limit'' ''200''" if "i < n" for i
      unfolding log using that n(1) by (simp add: requestInit_def)
    ultimately show ?thesis by blast
  qed
  show ?thesis
    using n url by (intro exI [of _ n]) blast
qed

lemma example_unique:
  "uniqueMatches [example_job 1 ''nightly export'' ''Daily sales report'',
                  example_job 2 ''Sales sync'' []]
   = [example_job 1 ''nightly export'' ''Daily sales report'', example_job 2 ''Sales sync'' []]"
  by (rule uniqueMatches_fixed) (simp add: example_job_def)

lemma external_http_url_rejected:
  assumes "rq_path spec = path" "startsWith path ''http''" "URL_new pf path None = Inr u"
    and "\<not> startsWith (href u) (baseUrl cl)"
  shows "request pf cl log spec
           = (log, Inl (Thrown (JsError ''External URLs are not allowed. Pass a relative Trocco API path.'')))"
proof -
  have "path \<noteq> []" using assms(2) by auto
  then show ?thesis using assms
    by (simp add: request_def buildUrl_def normalizedPath_def)
qed

lemma matching_http_url_accepted:
  assumes "startsWith path ''http''" "URL_new pf path None = Inr u"
    and "startsWith (href u) (baseUrl cl)"
  shows "normalizedPath pf cl path = Inr (pathname u @ search u @ hash u)"
  using assms by (simp add: normalizedPath_def)

section \<open>The claims\<close>

text \<open>
  C1, as amended. The match accumulator a scan ends with holds, in their order, exactly
  those records of the batches the scan received that pass the filter of its strategy,
  and every batch is recorded in this way. For \<open>exhaustive_scan\<close> and \<open>recent_first\<close> a
  record passes if and only if its lower-cased name or its lower-cased description
  contains the lower-cased search term as a substring; for \<open>keyword_chunks\<close> and
  \<open>alphabet_sweep\<close> it passes if and only if its lower-cased name does: these two do not
  look at the description. Lower-casing is that of the platform. The batches are those
  of the requests of the scan itself: the trace they are read from has the log of the
  scan.
\<close>
theorem strategy_filters_per_batch:
  "allMatches (snd (scan pf cl searchTerm s maxBatches))
     = filter (\<lambda>item. (\<exists>u v. lower_name pf item = u @ toLowerCase pf searchTerm @ v)
                      \<or> (s \<in> {exhaustive_scan, recent_first}
                          \<and> (\<exists>u v. lower_description pf item = u @ toLowerCase pf searchTerm @ v)))
         (concat (scan_batches pf cl searchTerm s maxBatches))
   \<and> (\<forall>item. item \<in> set (allMatches (snd (scan pf cl searchTerm s maxBatches)))
         \<longleftrightarrow> item \<in> set (concat (scan_batches pf cl searchTerm s maxBatches))
             \<and> ((\<exists>u v. lower_name pf item = u @ toLowerCase pf searchTerm @ v)
                \<or> (s \<in> {exhaustive_scan, recent_first}
                    \<and> (\<exists>u v. lower_description pf item = u @ toLowerCase pf searchTerm @ v))))
   \<and> totalScanned (snd (scan pf cl searchTerm s maxBatches))
       = length (concat (scan_batches pf cl searchTerm s maxBatches))
   \<and> batchesSearched (snd (scan pf cl searchTerm s maxBatches))
       = length (scan_batches pf cl searchTerm s maxBatches)
   \<and> fst (scan pf cl searchTerm s maxBatches) = fst (scan_trace pf cl searchTerm s maxBatches)
   \<and> scan_batches pf cl searchTerm s maxBatches = snd (scan_trace pf cl searchTerm s maxBatches)
   \<and> allMatches (record_batch pf s (toLowerCase pf searchTerm) st its)
       = allMatches st
         @ filter (\<lambda>item. (\<exists>u v. lower_name pf item = u @ toLowerCase pf searchTerm @ v)
                          \<or> (s \<in> {exhaustive_scan, recent_first}
                              \<and> (\<exists>u v. lower_description pf item = u @ toLowerCase pf searchTerm @ v)))
             its"
proof -
  let ?P = "\<lambda>item. (\<exists>u v. lower_name pf item = u @ toLowerCase pf searchTerm @ v)
                  \<or> (s \<in> {exhaustive_scan, recent_first}
                      \<and> (\<exists>u v. lower_description pf item = u @ toLowerCase pf searchTerm @ v))"
  have p: "strategy_filter pf s (toLowerCase pf searchTerm) = ?P"
    by (rule ext) (rule strategy_filter_iff)
  have st: "snd (scan pf cl searchTerm s maxBatches)
              = \<lparr>allMatches = filter ?P (concat (scan_batches pf cl searchTerm s maxBatches)),
                 totalScanned = length (concat (scan_batches pf cl searchTerm s maxBatches)),
                 batchesSearched = length (scan_batches pf cl searchTerm s maxBatches)\<rparr>"
    unfolding scan_tally tally_def p by (rule refl)
  have rb: "allMatches (record_batch pf s (toLowerCase pf searchTerm) st its)
              = allMatches st @ filter ?P its"
    unfolding p [symmetric] by (simp add: record_batch_def)
  show ?thesis
  proof (intro conjI allI)
    show "allMatches (snd (scan pf cl searchTerm s maxBatches))
            = filter ?P (concat (scan_batches pf cl searchTerm s maxBatches))"
      unfolding st by simp
    show "item \<in> set (allMatches (snd (scan pf cl searchTerm s maxBatches)))
            \<longleftrightarrow> item \<in> set (concat (scan_batches pf cl searchTerm s maxBatches)) \<and> ?P item"
      for item
      unfolding st by simp
    show "totalScanned (snd (scan pf cl searchTerm s maxBatches))
            = length (concat (scan_batches pf cl searchTerm s maxBatches))"
      unfolding st by simp
    show "batchesSearched (snd (scan pf cl searchTerm s maxBatches))
            = length (scan_batches pf cl searchTerm s maxBatches)"
      unfolding st by simp
    show "fst (scan pf cl searchTerm s maxBatches) = fst (scan_trace pf cl searchTerm s maxBatches)"
      by (rule scan_trace_log)
    show "scan_batches pf cl searchTerm s maxBatches = snd (scan_trace pf cl searchTerm s maxBatches)"
      by (rule scan_batches_def)
    show "allMatches (record_batch pf s (toLowerCase pf searchTerm) st its)
            = allMatches st @ filter ?P its"
      by (rule rb)
  qed
qed

theorem strategy_filters_per_batch_witness:
  "scan_batches (example_platform detail_server) example_client ''sales'' exhaustive_scan 1
     = [[example_job 1 ''nightly export'' ''Daily sales report'', example_job 2 ''Sales sync'' []]]
   \<and> allMatches (snd (scan (example_platform detail_server) example_client ''sales''
                         exhaustive_scan 1))
     = [example_job 1 ''nightly export'' ''Daily sales report'', example_job 2 ''Sales sync'' []]
   \<and> scan_batches (example_platform listing_server) example_client ''sales'' alphabet_sweep 1
     = [[example_job 1 ''nightly export'' ''Daily sales report'', example_job 2 ''Sales sync'' []]]
   \<and> allMatches (snd (scan (example_platform listing_server) example_client ''sales''
                         alphabet_sweep 1))
     = [example_job 2 ''Sales sync'' []]"
proof -
  let ?j1 = "example_job 1 ''nightly export'' ''Daily sales report''"
  let ?j2 = "example_job 2 ''Sales sync'' []"
  let ?d = "example_platform detail_server"
  let ?l = "example_platform listing_server"
  have n1: "\<not> (\<exists>u v. lower_name (example_platform f) ?j1 = u @ ''sales'' @ v)" for f
    using filter_name_job1 [of f] by (simp add: strategy_filter_iff)
  have n2: "\<exists>u v. lower_name (example_platform f) ?j2 = u @ ''sales'' @ v" for f
    using filter_name_job2 [of f] by (simp add: strategy_filter_iff)
  have d1: "\<exists>u v. lower_description (example_platform f) ?j1 = u @ ''sales'' @ v" for f
    using filter_both_job1 [of f] n1 [of f] by (simp add: strategy_filter_iff)
  have b1: "scan_batches ?d example_client ''sales'' exhaustive_scan (Suc 0) = [[?j1, ?j2]]"
    by (rule detail_server_scan_batches)
  have b2: "scan_batches ?l example_client ''sales'' alphabet_sweep (Suc 0) = [[?j1, ?j2]]"
    unfolding scan_batches_def scan_trace_def strategy.case
    by (subst letters_Cons) (rule listing_server_batches)
  have m1: "allMatches (snd (scan ?d example_client ''sales'' exhaustive_scan (Suc 0))) = [?j1, ?j2]"
    using strategy_filters_per_batch [of ?d example_client "''sales''" exhaustive_scan "Suc 0"]
      n2 [of detail_server] d1 [of detail_server]
    unfolding b1 toLowerCase_sales by simp
  have m2: "allMatches (snd (scan ?l example_client ''sales'' alphabet_sweep (Suc 0))) = [?j2]"
    using strategy_filters_per_batch [of ?l example_client "''sales''" alphabet_sweep "Suc 0"]
      n1 [of listing_server] n2 [of listing_server]
    unfolding b2 toLowerCase_sales by simp
  show ?thesis unfolding One_nat_def using b1 b2 m1 m2 by simp
qed

text \<open>
  The claim as stated fails for \<open>keyword_chunks\<close>: the batch the scan receives holds a job
  whose description, but not its name, contains the term; the job is scanned and not
  added.
\<close>

theorem keyword_chunks_ignores_description:
  "scan_batches (example_platform listing_server) example_client ''sales'' keyword_chunks 1
     = [[example_job 1 ''nightly export'' ''Daily sales report'', example_job 2 ''Sales sync'' []]]
   \<and> allMatches (snd (scan (example_platform listing_server) example_client ''sales'' keyword_chunks 1))
     = [example_job 2 ''Sales sync'' []]
   \<and> totalScanned (snd (scan (example_platform listing_server) example_client ''sales''
                           keyword_chunks 1)) = 2
   \<and> includes_str
         (lower_description (example_platform listing_server)
            (example_job 1 ''nightly export'' ''Daily sales report''))
         (toLowerCase (example_platform listing_server) ''sales'')"
proof -
  let ?st0 = "\<lparr>allMatches = [], totalScanned = 0, batchesSearched = 0\<rparr>"
  let ?pf = "example_platform listing_server"
  let ?call = "\<lambda>c. requestInit ?pf example_client (name_contains_request c)
                 ((example_url ''job_definitions'')
                    \<lparr>searchParams := [(''name_contains'', c), (''limit'', ''200'')]\<rparr>)"
  let ?st1 = "record_batch ?pf keyword_chunks ''sales'' ?st0
                (response_items (example_summary ''GET'' listing_payload))"
  have bs: "batchesSearched ?st1 = Suc 0" by (simp add: record_batch_def)
  have run: "scan ?pf example_client ''sales'' keyword_chunks (Suc 0) = ([?call ''sal''], ?st1)"
    unfolding scan_keyword_chunks keyword_chunks_sales toLowerCase_sales
    by (simp add: listing_request_name_contains bs)
  have batches: "scan_batches ?pf example_client ''sales'' keyword_chunks (Suc 0)
                   = [[example_job 1 ''nightly export'' ''Daily sales report'',
                       example_job 2 ''Sales sync'' []]]"
    unfolding scan_batches_def scan_trace_def keyword_chunks_sales strategy.case
    by (rule listing_server_batches)
  have d: "includes_str
             (lower_description ?pf (example_job 1 ''nightly export'' ''Daily sales report''))
             (toLowerCase ?pf ''sales'')"
    unfolding lower_description_def example_toLowerCase by code_simp
  show ?thesis
    unfolding One_nat_def run batches
    using d filter_name_job1 [of listing_server] filter_name_job2 [of listing_server]
    by (simp add: record_batch_def listing_items)
qed

text \<open>
  C2. A request with a timeout and a caller's signal is bound to the combination of
  both, and fails with the reason of the source that aborts first. If the caller's
  signal is already aborted when the request is made, the request raises an error whose
  message is the message of the signal's reason and whose cause is that reason, whatever
  happens during the \<open>fetch\<close>, the timer firing included. If the signal is not yet
  aborted and the first abort event during the \<open>fetch\<close> is the caller's signal aborting
  with a reason, the request raises an error whose message is the message of that reason
  and whose cause is that reason (the default abort error when the caller gave none),
  whatever happens later, the timer firing included. If the first event is the timer,
  the error carries the timeout message and the timeout error as its cause.
\<close>
theorem request_abort_reason_of_first_source:
  assumes url: "buildUrl pf cl (rq_path spec) (rq_query spec) = Inr u"
  shows "(rq_signal spec = Some (AlreadyAborted e)
            \<longrightarrow> request pf cl log spec
                  = (log @ [requestInit pf cl spec u],
                     Inl (TroccoApiError
                            \<lparr>err_message = message e, err_request = requestContext cl spec u,
                             err_response = None, err_cause = Some e\<rparr>)))
       \<and> (rq_signal spec = Some NotAborted
            \<and> tl_aborts (fetch pf log (requestInit pf cl spec u)) = ExternalAborted (Some e) # later
            \<longrightarrow> request pf cl log spec
                  = (log @ [requestInit pf cl spec u],
                     Inl (TroccoApiError
                            \<lparr>err_message = message e, err_request = requestContext cl spec u,
                             err_response = None, err_cause = Some e\<rparr>)))
       \<and> (rq_signal spec = Some NotAborted
            \<and> tl_aborts (fetch pf log (requestInit pf cl spec u)) = ExternalAborted None # later
            \<longrightarrow> request pf cl log spec
                  = (log @ [requestInit pf cl spec u],
                     Inl (TroccoApiError
                            \<lparr>err_message = message default_abort_error,
                             err_request = requestContext cl spec u,
                             err_response = None, err_cause = Some default_abort_error\<rparr>)))
       \<and> (rq_signal spec = Some NotAborted
            \<and> tl_aborts (fetch pf log (requestInit pf cl spec u)) = TimerFired # later
            \<longrightarrow> request pf cl log spec
                  = (log @ [requestInit pf cl spec u],
                     Inl (TroccoApiError
                            \<lparr>err_message = ''Trocco API request timed out after ''
                                             @ String_nat (effective_timeout cl spec) @ '' ms'',
                             err_request = requestContext cl spec u,
                             err_response = None,
                             err_cause = Some (timeout_error (effective_timeout cl spec))\<rparr>)))"
proof (intro conjI impI)
  assume "rq_signal spec = Some (AlreadyAborted e)"
  then show "request pf cl log spec
               = (log @ [requestInit pf cl spec u],
                  Inl (TroccoApiError
                         \<lparr>err_message = message e, err_request = requestContext cl spec u,
                          err_response = None, err_cause = Some e\<rparr>))"
    using request_already_aborted [OF url, of e log] by (simp add: wrap_error_def)
next
  assume a: "rq_signal spec = Some NotAborted
             \<and> tl_aborts (fetch pf log (requestInit pf cl spec u)) = ExternalAborted (Some e) # later"
  show "request pf cl log spec
          = (log @ [requestInit pf cl spec u],
             Inl (TroccoApiError
                    \<lparr>err_message = message e, err_request = requestContext cl spec u,
                     err_response = None, err_cause = Some e\<rparr>))"
    using request_first_abort_event [OF url, of log e later] a by blast
next
  assume a: "rq_signal spec = Some NotAborted
             \<and> tl_aborts (fetch pf log (requestInit pf cl spec u)) = ExternalAborted None # later"
  show "request pf cl log spec
          = (log @ [requestInit pf cl spec u],
             Inl (TroccoApiError
                    \<lparr>err_message = message default_abort_error,
                     err_request = requestContext cl spec u,
                     err_response = None, err_cause = Some default_abort_error\<rparr>))"
    using request_first_abort_event [OF url, of log e later] a by blast
next
  assume a: "rq_signal spec = Some NotAborted
             \<and> tl_aborts (fetch pf log (requestInit pf cl spec u)) = TimerFired # later"
  show "request pf cl log spec
          = (log @ [requestInit pf cl spec u],
             Inl (TroccoApiError
                    \<lparr>err_message = ''Trocco API request timed out after ''
                                     @ String_nat (effective_timeout cl spec) @ '' ms'',
                     err_request = requestContext cl spec u,
                     err_response = None,
                     err_cause = Some (timeout_error (effective_timeout cl spec))\<rparr>))"
    using request_first_abort_event [OF url, of log e later] a by blast
qed

theorem request_abort_reason_of_first_source_witness:
  "error_message
     (snd (request (example_platform
                      (\<lambda>log call. raced [ExternalAborted (Some (JsError ''cancelled by caller'')),
                                         TimerFired]))
             example_client [] cancellable_request)) = Some ''cancelled by caller''
   \<and> error_cause
     (snd (request (example_platform
                      (\<lambda>log call. raced [ExternalAborted (Some (JsError ''cancelled by caller'')),
                                         TimerFired]))
             example_client [] cancellable_request)) = Some (JsError ''cancelled by caller'')
   \<and> error_message
     (snd (request (example_platform
                      (\<lambda>log call. raced [TimerFired,
                                         ExternalAborted (Some (JsError ''cancelled by caller''))]))
             example_client [] cancellable_request))
       = Some ''Trocco API request timed out after 45000 ms''
   \<and> error_cause
     (snd (request (example_platform (\<lambda>log call. raced [TimerFired])) example_client []
             (cancellable_request
                \<lparr>rq_signal := Some (AlreadyAborted (JsError ''cancelled before the call''))\<rparr>)))
       = Some (JsError ''cancelled before the call'')"
proof -
  let ?c = "example_platform (\<lambda>log call. raced [TimerFired])"
  let ?gone = "cancellable_request
                 \<lparr>rq_signal := Some (AlreadyAborted (JsError ''cancelled before the call''))\<rparr>"
  have url_c: "buildUrl ?c example_client (rq_path ?gone) (rq_query ?gone)
                 = Inr (example_url ''job_definitions/7'')"
    using example_buildUrl_cancellable [of "\<lambda>log call. raced [TimerFired]"] by simp
  have rc: "snd (request ?c example_client [] ?gone)
              = Inl (TroccoApiError
                       \<lparr>err_message = message (JsError ''cancelled before the call''),
                        err_request = requestContext example_client ?gone
                                        (example_url ''job_definitions/7''),
                        err_response = None,
                        err_cause = Some (JsError ''cancelled before the call'')\<rparr>)"
    using request_abort_reason_of_first_source [OF url_c,
        where log = "[]" and e = "JsError ''cancelled before the call''"]
    by simp
  let ?a = "example_platform
              (\<lambda>log call. raced [ExternalAborted (Some (JsError ''cancelled by caller'')), TimerFired])"
  let ?b = "example_platform
              (\<lambda>log call. raced [TimerFired, ExternalAborted (Some (JsError ''cancelled by caller''))])"
  have handle: "rq_signal cancellable_request = Some NotAborted"
    by (simp add: cancellable_request_def)
  have a: "tl_aborts (fetch ?a [] (requestInit ?a example_client cancellable_request
                 (example_url ''job_definitions/7'')))
             = ExternalAborted (Some (JsError ''cancelled by caller'')) # [TimerFired]"
    by (simp add: example_platform_def raced_def)
  have b: "tl_aborts (fetch ?b [] (requestInit ?b example_client cancellable_request
                 (example_url ''job_definitions/7'')))
             = TimerFired # [ExternalAborted (Some (JsError ''cancelled by caller''))]"
    by (simp add: example_platform_def raced_def)
  have t: "effective_timeout example_client cancellable_request = 45000"
    by (simp add: effective_timeout_def cancellable_request_def details_request_def
        example_client_def)
  have url_a: "buildUrl ?a example_client (rq_path cancellable_request)
                 (rq_query cancellable_request) = Inr (example_url ''job_definitions/7'')"
    by (rule example_buildUrl_cancellable)
  have url_b: "buildUrl ?b example_client (rq_path cancellable_request)
                 (rq_query cancellable_request) = Inr (example_url ''job_definitions/7'')"
    by (rule example_buildUrl_cancellable)
  have ra: "snd (request ?a example_client [] cancellable_request)
              = Inl (TroccoApiError
                       \<lparr>err_message = message (JsError ''cancelled by caller''),
                        err_request = requestContext example_client cancellable_request
                                        (example_url ''job_definitions/7''),
                        err_response = None, err_cause = Some (JsError ''cancelled by caller'')\<rparr>)"
    using request_abort_reason_of_first_source [OF url_a,
        where log = "[]" and e = "JsError ''cancelled by caller''" and later = "[TimerFired]"] a handle
    by simp
  have rb: "snd (request ?b example_client [] cancellable_request)
              = Inl (TroccoApiError
                       \<lparr>err_message = ''Trocco API request timed out after ''
                                        @ String_nat (effective_timeout example_client cancellable_request)
                                        @ '' ms'',
                        err_request = requestContext example_client cancellable_request
                                        (example_url ''job_definitions/7''),
                        err_response = None,
                        err_cause = Some (timeout_error
                                            (effective_timeout example_client cancellable_request))\<rparr>)"
    using request_abort_reason_of_first_source [OF url_b,
        where log = "[]" and later = "[ExternalAborted (Some (JsError ''cancelled by caller''))]"] b handle
    by simp
  show ?thesis
    unfolding ra rb rc by (simp add: error_message_def error_cause_def t String_nat_45000)
qed



text \<open>
  C4. Deduplicating the match accumulator is idempotent: deduplicating a deduplicated
  sequence gives it back, and a sequence whose identifiers are all different is left as
  it is. The result has no identifier twice, and it consists of the elements at exactly
  those positions that no earlier position shares its identifier with, in their original
  order: of several records with one identifier the earliest is kept, at its place.
\<close>
theorem uniqueMatches_idempotent_first_occurrence:
  "uniqueMatches (uniqueMatches xs) = uniqueMatches xs
   \<and> (distinct (map item_id xs) \<longrightarrow> uniqueMatches xs = xs)
   \<and> distinct (map item_id (uniqueMatches xs))
   \<and> uniqueMatches xs
       = map (\<lambda>i. xs ! i)
           (filter (\<lambda>i. \<forall>j<i. item_id (xs ! j) \<noteq> item_id (xs ! i)) [0 ..< length xs])"
proof (intro conjI impI)
  show "uniqueMatches (uniqueMatches xs) = uniqueMatches xs" by (rule uniqueMatches_idem)
  show "uniqueMatches xs = xs" if "distinct (map item_id xs)"
    using that by (rule uniqueMatches_fixed)
  show "distinct (map item_id (uniqueMatches xs))" by (rule uniqueMatches_distinct_ids)
  have "first_occurrence xs = (\<lambda>i. \<forall>j<i. item_id (xs ! j) \<noteq> item_id (xs ! i))"
    by (rule ext) (simp add: first_occurrence_def)
  then show "uniqueMatches xs
       = map (\<lambda>i. xs ! i)
           (filter (\<lambda>i. \<forall>j<i. item_id (xs ! j) \<noteq> item_id (xs ! i)) [0 ..< length xs])"
    using uniqueMatches_positions [of xs] by simp
qed

theorem uniqueMatches_idempotent_first_occurrence_witness:
  "uniqueMatches [example_job 1 ''a'' ''x'', example_job 2 ''b'' ''y'']
     = [example_job 1 ''a'' ''x'', example_job 2 ''b'' ''y'']
   \<and> uniqueMatches [example_job 1 ''a'' ''x'', example_job 2 ''b'' ''y'', example_job 1 ''c'' ''z'']
     = [example_job 1 ''a'' ''x'', example_job 2 ''b'' ''y'']"
proof -
  have d: "distinct (map item_id [example_job 1 ''a'' ''x'', example_job 2 ''b'' ''y''])"
    by (simp add: example_job_def)
  have one: "uniqueMatches [example_job 1 ''a'' ''x'', example_job 2 ''b'' ''y'']
     = [example_job 1 ''a'' ''x'', example_job 2 ''b'' ''y'']"
    using uniqueMatches_idempotent_first_occurrence
            [of "[example_job 1 ''a'' ''x'', example_job 2 ''b'' ''y'']"] d by blast
  have idx: "[0 ..< 3] = [0, 1, 2 :: nat]" by (simp add: upt_rec)
  have two: "uniqueMatches [example_job 1 ''a'' ''x'', example_job 2 ''b'' ''y'', example_job 1 ''c'' ''z'']
     = [example_job 1 ''a'' ''x'', example_job 2 ''b'' ''y'']"
    using uniqueMatches_idempotent_first_occurrence
            [of "[example_job 1 ''a'' ''x'', example_job 2 ''b'' ''y'', example_job 1 ''c'' ''z'']"]
    by (simp add: idx example_job_def less_Suc_eq numeral_2_eq_2)
  show ?thesis using one two by simp
qed

text \<open>
  C5. The chunks of the keyword strategy are every contiguous window of three characters
  of the search term, then its first half and its second half, split at
  \<open>length div 2\<close>. The strategy iterates over them without repetitions: the list it
  walks holds exactly the three-character substrings of the term and the two halves, each
  once, and its requests are those of a prefix of that list, in its order, one query
  \<open>name_contains = chunk\<close> for each chunk of the prefix. The prefix has at least
  \<open>min (number of chunks) maxBatches\<close> chunks, and exactly as many when no request fails.
  For the term \<open>abcde\<close> the chunks are abc, bcd, cde, ab, cde, and without repetitions abc,
  bcd, cde, ab.
\<close>
theorem keyword_chunks_windows_and_halves:
  "chunks_of searchTerm
     = map (\<lambda>k. take 3 (drop k searchTerm)) [0 ..< length searchTerm - 2]
       @ [take (length searchTerm div 2) searchTerm, drop (length searchTerm div 2) searchTerm]
   \<and> set (keyword_chunks_list searchTerm)
       = {w. length w = 3 \<and> (\<exists>u v. searchTerm = u @ w @ v)}
         \<union> {take (length searchTerm div 2) searchTerm, drop (length searchTerm div 2) searchTerm}
   \<and> distinct (keyword_chunks_list searchTerm)
   \<and> (\<exists>n\<le>length (keyword_chunks_list searchTerm).
         min (length (keyword_chunks_list searchTerm)) maxBatches \<le> n
       \<and> fst (scan pf cl searchTerm keyword_chunks maxBatches)
           = concat (map (\<lambda>chunk. issued pf cl (name_contains_request chunk))
                       (take n (keyword_chunks_list searchTerm)))
       \<and> (URL_new pf ''job_definitions'' (Some (baseUrl cl)) = Inr u
           \<longrightarrow> length (fst (scan pf cl searchTerm keyword_chunks maxBatches)) = n
               \<and> (\<forall>i<n. searchParams (fc_url (fst (scan pf cl searchTerm keyword_chunks maxBatches) ! i))
                          = searchParams_set
                              (searchParams_set (searchParams u) ''name_contains''
                                 (keyword_chunks_list searchTerm ! i))
                              ''limit'' ''200''))
       \<and> ((\<forall>c l. \<exists>r. snd (request pf cl l (name_contains_request c)) = Inr r)
           \<longrightarrow> n = min (length (keyword_chunks_list searchTerm)) maxBatches))
   \<and> chunks_of ''abcde'' = [''abc'', ''bcd'', ''cde'', ''ab'', ''cde'']
   \<and> keyword_chunks_list ''abcde'' = [''abc'', ''bcd'', ''cde'', ''ab'']"
proof -
  have a: "set (keyword_chunks_list searchTerm)
       = {w. length w = 3 \<and> (\<exists>u v. searchTerm = u @ w @ v)}
         \<union> {take (length searchTerm div 2) searchTerm, drop (length searchTerm div 2) searchTerm}"
    unfolding keyword_chunks_list_def new_Set_set chunks_of_eq set_append windows_set by auto
  have b: "\<exists>n\<le>length (keyword_chunks_list searchTerm).
         min (length (keyword_chunks_list searchTerm)) maxBatches \<le> n
       \<and> fst (scan pf cl searchTerm keyword_chunks maxBatches)
           = concat (map (\<lambda>chunk. issued pf cl (name_contains_request chunk))
                       (take n (keyword_chunks_list searchTerm)))
       \<and> (URL_new pf ''job_definitions'' (Some (baseUrl cl)) = Inr u
           \<longrightarrow> length (fst (scan pf cl searchTerm keyword_chunks maxBatches)) = n
               \<and> (\<forall>i<n. searchParams (fc_url (fst (scan pf cl searchTerm keyword_chunks maxBatches) ! i))
                          = searchParams_set
                              (searchParams_set (searchParams u) ''name_contains''
                                 (keyword_chunks_list searchTerm ! i))
                              ''limit'' ''200''))
       \<and> ((\<forall>c l. \<exists>r. snd (request pf cl l (name_contains_request c)) = Inr r)
           \<longrightarrow> n = min (length (keyword_chunks_list searchTerm)) maxBatches)"
    unfolding scan_keyword_chunks by (rule name_contains_loop_queries)
  have c: "chunks_of searchTerm
     = map (\<lambda>k. take 3 (drop k searchTerm)) [0 ..< length searchTerm - 2]
       @ [take (length searchTerm div 2) searchTerm, drop (length searchTerm div 2) searchTerm]"
    by (rule chunks_of_eq)
  have d: "distinct (keyword_chunks_list searchTerm)"
    by (simp add: keyword_chunks_list_def new_Set_distinct)
  show ?thesis
    by (intro conjI) (rule c, rule a, rule d, rule b, rule example_chunks,
        rule example_keyword_chunks)
qed

theorem keyword_chunks_windows_and_halves_witness:
  "set (keyword_chunks_list ''abcde'') = {''abc'', ''bcd'', ''cde'', ''ab''}
   \<and> distinct (keyword_chunks_list ''abcde'')
   \<and> length (fst (scan (example_platform listing_server) example_client ''abcde''
                    keyword_chunks 2)) = 2
   \<and> searchParams (fc_url (fst (scan (example_platform listing_server) example_client ''abcde''
                                   keyword_chunks 2) ! 1))
       = [(''name_contains'', ''bcd''), (''limit'', ''200'')]"
proof -
  let ?pf = "example_platform listing_server"
  let ?log = "fst (scan ?pf example_client ''abcde'' keyword_chunks 2)"
  have nofail: "\<forall>c l. \<exists>r. snd (request ?pf example_client l (name_contains_request c)) = Inr r"
    by (simp add: listing_request_name_contains)
  have url: "URL_new ?pf ''job_definitions'' (Some (baseUrl example_client))
               = Inr (example_url ''job_definitions'')"
    by (simp add: example_platform_def plain_URL_def example_client_def example_url_def)
  have all: "set (keyword_chunks_list ''abcde'')
               = {w. length w = 3 \<and> (\<exists>u v. ''abcde'' = u @ w @ v)}
                 \<union> {take (length ''abcde'' div 2) ''abcde'', drop (length ''abcde'' div 2) ''abcde''}"
    "distinct (keyword_chunks_list ''abcde'')"
    "keyword_chunks_list ''abcde'' = [''abc'', ''bcd'', ''cde'', ''ab'']"
    "\<exists>n\<le>length (keyword_chunks_list ''abcde'').
         min (length (keyword_chunks_list ''abcde'')) 2 \<le> n
       \<and> ?log = concat (map (\<lambda>chunk. issued ?pf example_client (name_contains_request chunk))
                          (take n (keyword_chunks_list ''abcde'')))
       \<and> (URL_new ?pf ''job_definitions'' (Some (baseUrl example_client))
            = Inr (example_url ''job_definitions'')
           \<longrightarrow> length ?log = n
               \<and> (\<forall>i<n. searchParams (fc_url (?log ! i))
                          = searchParams_set
                              (searchParams_set (searchParams (example_url ''job_definitions''))
                                 ''name_contains'' (keyword_chunks_list ''abcde'' ! i))
                              ''limit'' ''200''))
       \<and> ((\<forall>c l. \<exists>r. snd (request ?pf example_client l (name_contains_request c)) = Inr r)
           \<longrightarrow> n = min (length (keyword_chunks_list ''abcde'')) 2)"
    using keyword_chunks_windows_and_halves [where searchTerm = "''abcde''" and pf = ?pf
        and cl = example_client and maxBatches = 2 and u = "example_url ''job_definitions''"]
    by blast+
  obtain n where n: "n = min (length (keyword_chunks_list ''abcde'')) 2"
    "length ?log = n"
    "\<forall>i<n. searchParams (fc_url (?log ! i))
             = searchParams_set
                 (searchParams_set (searchParams (example_url ''job_definitions''))
                    ''name_contains'' (keyword_chunks_list ''abcde'' ! i)) ''limit'' ''200''"
    using all(4) nofail url by blast
  have n2: "n = 2" using n(1) unfolding all(3) by simp
  have "searchParams (fc_url (?log ! 1))
          = searchParams_set
              (searchParams_set (searchParams (example_url ''job_definitions''))
                 ''name_contains'' (keyword_chunks_list ''abcde'' ! 1)) ''limit'' ''200''"
    using n(3) n2 by simp
  then have q: "searchParams (fc_url (?log ! 1)) = [(''name_contains'', ''bcd''), (''limit'', ''200'')]"
    unfolding all(3) by (simp add: example_url_def)
  have s: "set (keyword_chunks_list ''abcde'') = {''abc'', ''bcd'', ''cde'', ''ab''}"
    unfolding all(3) by auto
  show ?thesis using s all(2) n(2) n2 q by simp
qed

text \<open>
  C6, as amended. The alphabet strategy makes its requests for a prefix of the alphabet,
  a to z and then 0 to 9, one request per symbol and in that order, whatever the search
  term is: with \<open>n\<close> the number of symbols tried, \<open>n\<close> is at most 36 and at least
  \<open>min 36 maxBatches\<close>. When the URL can be built every request is a \<open>fetch\<close> call, and
  the \<open>i\<close>-th call carries the \<open>i\<close>-th symbol as \<open>name_contains\<close> and \<open>limit\<close> 200. A
  failed request does not count against the budget, so the number of requests is
  \<open>min 36 maxBatches\<close> exactly when no request fails, and can be larger otherwise.
\<close>
theorem alphabet_sweep_queries:
  "\<exists>n. n \<le> 36 \<and> min 36 maxBatches \<le> n
      \<and> fst (scan pf cl searchTerm alphabet_sweep maxBatches)
          = concat (map (\<lambda>letter. issued pf cl (name_contains_request letter)) (take n letters))
      \<and> (URL_new pf ''job_definitions'' (Some (baseUrl cl)) = Inr u
          \<longrightarrow> length (fst (scan pf cl searchTerm alphabet_sweep maxBatches)) = n
              \<and> (\<forall>i<n. searchParams (fc_url (fst (scan pf cl searchTerm alphabet_sweep maxBatches) ! i))
                         = searchParams_set
                             (searchParams_set (searchParams u) ''name_contains'' (letters ! i))
                             ''limit'' ''200''))
      \<and> ((\<forall>c l. \<exists>r. snd (request pf cl l (name_contains_request c)) = Inr r)
          \<longrightarrow> n = min 36 maxBatches
              \<and> length (fst (scan pf cl searchTerm alphabet_sweep maxBatches)) = min 36 maxBatches)
      \<and> fst (scan pf cl searchTerm alphabet_sweep maxBatches)
          = fst (scan pf cl otherTerm alphabet_sweep maxBatches)
      \<and> letters = map (\<lambda>c. [c]) ''abcdefghijklmnopqrstuvwxyz0123456789''"
proof -
  let ?st0 = "\<lparr>allMatches = [], totalScanned = 0, batchesSearched = 0\<rparr>"
  let ?iss = "\<lambda>letter. issued pf cl (name_contains_request letter)"
  let ?nofail = "\<forall>c l. \<exists>r. snd (request pf cl l (name_contains_request c)) = Inr r"
  let ?log = "fst (scan pf cl searchTerm alphabet_sweep maxBatches)"
  have "\<exists>n\<le>length letters.
          fst (name_contains_loop alphabet_sweep pf cl (toLowerCase pf searchTerm) maxBatches letters ([], ?st0))
            = [] @ concat (map ?iss (take n letters))
        \<and> min (length letters) (maxBatches - batchesSearched ?st0) \<le> n
        \<and> (?nofail \<longrightarrow> n = min (length letters) (maxBatches - batchesSearched ?st0))"
    by (rule name_contains_loop_log)
  then obtain n where n: "n \<le> 36" "min 36 maxBatches \<le> n"
    "?log = concat (map ?iss (take n letters))"
    "?nofail \<longrightarrow> n = min 36 maxBatches"
    unfolding scan_alphabet_sweep length_letters by auto
  have url: "length ?log = n
              \<and> (\<forall>i<n. searchParams (fc_url (?log ! i))
                         = searchParams_set
                             (searchParams_set (searchParams u) ''name_contains'' (letters ! i))
                             ''limit'' ''200'')"
    if u: "URL_new pf ''job_definitions'' (Some (baseUrl cl)) = Inr u"
  proof -
    let ?g = "\<lambda>letter. requestInit pf cl (name_contains_request letter)
                (u\<lparr>searchParams :=
                     searchParams_set (searchParams_set (searchParams u) ''name_contains'' letter)
                       ''limit'' ''200''\<rparr>)"
    have "concat (map ?iss (take n letters)) = map ?g (take n letters)"
      by (rule nth_concat_singletons) (rule issued_name_contains_eq [OF u])
    then have log: "?log = map ?g (take n letters)" using n(3) by simp
    have "length ?log = n" unfolding log using n(1) by (simp add: length_letters)
    moreover have "searchParams (fc_url (?log ! i))
                     = searchParams_set
                         (searchParams_set (searchParams u) ''name_contains'' (letters ! i))
                         ''limit'' ''200''" if "i < n" for i
      unfolding log using that n(1) by (simp add: length_letters requestInit_def)
    ultimately show ?thesis by blast
  qed
  have nofail: "n = min 36 maxBatches \<and> length ?log = min 36 maxBatches" if nf: ?nofail
  proof -
    have "length (concat (map ?iss (take n letters))) = length (take n letters)"
    proof (rule length_concat_singletons)
      fix x
      obtain r where "snd (request pf cl [] (name_contains_request x)) = Inr r" using nf by blast
      then show "\<exists>y. ?iss x = [y]" by (rule request_success_issued)
    qed
    then have "length ?log = n" using n(1,3) by (simp add: length_letters)
    then show ?thesis using n(4) nf by simp
  qed
  have indep: "?log = fst (scan pf cl otherTerm alphabet_sweep maxBatches)"
    unfolding scan_alphabet_sweep
    using name_contains_loop_independent [of ?st0 ?st0 alphabet_sweep pf cl
        "toLowerCase pf searchTerm" maxBatches letters "[]" alphabet_sweep "toLowerCase pf otherTerm"]
    by simp
  have alphabet: "letters = map (\<lambda>c. [c]) ''abcdefghijklmnopqrstuvwxyz0123456789''"
    by (rule letters_def)
  show ?thesis
    using n(1,2,3) url nofail indep alphabet by (intro exI [of _ n]) blast
qed

text \<open>
  The claim as stated fails when a request fails: with \<open>maxBatches = 1\<close> and a server
  whose first request fails, the strategy makes two requests, for a and for b, and
  counts one batch.
\<close>

theorem alphabet_sweep_failed_request_not_counted:
  "length (fst (scan (example_platform flaky_server) example_client ''sales'' alphabet_sweep 1)) = 2
   \<and> map (\<lambda>call. searchParams (fc_url call))
        (fst (scan (example_platform flaky_server) example_client ''sales'' alphabet_sweep 1))
      = [[(''name_contains'', ''a''), (''limit'', ''200'')],
         [(''name_contains'', ''b''), (''limit'', ''200'')]]
   \<and> batchesSearched (snd (scan (example_platform flaky_server) example_client ''sales'' alphabet_sweep 1)) = 1
   \<and> length (fst (scan (example_platform flaky_server) example_client ''sales'' alphabet_sweep 1))
       \<noteq> min 36 1"
proof -
  let ?st0 = "\<lparr>allMatches = [], totalScanned = 0, batchesSearched = 0\<rparr>"
  let ?pf = "example_platform flaky_server"
  let ?call = "\<lambda>c. requestInit ?pf example_client (name_contains_request c)
                 ((example_url ''job_definitions'')
                    \<lparr>searchParams := [(''name_contains'', c), (''limit'', ''200'')]\<rparr>)"
  let ?st1 = "record_batch ?pf alphabet_sweep (toLowerCase ?pf ''sales'') ?st0
                (response_items (example_summary ''GET'' listing_payload))"
  have bs: "batchesSearched ?st1 = Suc 0" by (simp add: record_batch_def)
  have stop: "name_contains_loop alphabet_sweep ?pf example_client (toLowerCase ?pf ''sales'') (Suc 0)
                (drop 2 letters) ([?call ''a'', ?call ''b''], ?st1)
              = ([?call ''a'', ?call ''b''], ?st1)"
    by (rule name_contains_loop_budget_spent) (simp add: bs)
  have run: "scan ?pf example_client ''sales'' alphabet_sweep (Suc 0)
               = ([?call ''a'', ?call ''b''], ?st1)"
    unfolding scan_alphabet_sweep
    by (subst letters_Cons) (simp add: flaky_request_first flaky_request_later stop)
  show ?thesis unfolding One_nat_def run using bs by (simp add: requestInit_def)
qed

theorem alphabet_sweep_queries_witness:
  "length (fst (scan (example_platform listing_server) example_client ''sales'' alphabet_sweep 3)) = 3
   \<and> searchParams (fc_url (fst (scan (example_platform listing_server) example_client ''sales''
                                   alphabet_sweep 3) ! 2))
       = [(''name_contains'', ''c''), (''limit'', ''200'')]"
proof -
  let ?pf = "example_platform listing_server"
  have nofail: "\<forall>c l. \<exists>r. snd (request ?pf example_client l (name_contains_request c)) = Inr r"
    by (simp add: listing_request_name_contains)
  have url: "URL_new ?pf ''job_definitions'' (Some (baseUrl example_client))
               = Inr (example_url ''job_definitions'')"
    by (simp add: example_platform_def plain_URL_def example_client_def example_url_def)
  obtain n where n: "n = min 36 (3 :: nat)"
    "\<forall>i<n. searchParams (fc_url (fst (scan ?pf example_client ''sales'' alphabet_sweep 3) ! i))
             = searchParams_set
                 (searchParams_set (searchParams (example_url ''job_definitions''))
                    ''name_contains'' (letters ! i)) ''limit'' ''200''"
    "length (fst (scan ?pf example_client ''sales'' alphabet_sweep 3)) = min 36 3"
    using alphabet_sweep_queries [of 3 ?pf example_client "''sales''"
        "example_url ''job_definitions''" "''sales''"] nofail url
    by blast
  have "(2 :: nat) < n" using n(1) by simp
  then have "searchParams (fc_url (fst (scan ?pf example_client ''sales'' alphabet_sweep 3) ! 2))
             = searchParams_set
                 (searchParams_set (searchParams (example_url ''job_definitions''))
                    ''name_contains'' (letters ! 2)) ''limit'' ''200''"
    using n(2) by blast
  then show ?thesis using n(3) by (simp add: letters_def example_url_def)
qed

text \<open>
  C7. The check for external URLs runs only for a path that starts with the lower-case
  letters \<open>http\<close>. The path \<open>HTTPS://evil.example/steal\<close> is an absolute URL that does not
  start with them (nor with a slash): it is normalised to itself and handed to the \<open>URL\<close>
  constructor with the base, no usage error is raised, and when the constructor resolves
  it the request calls \<open>fetch\<close> with the resulting URL.
\<close>
theorem uppercase_scheme_skips_external_url_check:
  "normalizedPath pf cl evil_path = Inr evil_path
   \<and> buildUrl pf cl evil_path None = URL_new pf evil_path (Some (baseUrl cl))
   \<and> (rq_path spec = evil_path \<and> rq_query spec = None
        \<and> URL_new pf evil_path (Some (baseUrl cl)) = Inr u
        \<longrightarrow> fst (request pf cl log spec) = log @ [requestInit pf cl spec u])"
proof -
  have n: "normalizedPath pf cl evil_path = Inr evil_path"
    by (simp add: normalizedPath_def evil_path_def)
  have ne: "evil_path \<noteq> []" by (simp add: evil_path_def)
  have b: "buildUrl pf cl evil_path None = URL_new pf evil_path (Some (baseUrl cl))"
    using n ne by (simp add: buildUrl_def split: sum.splits)
  have "fst (request pf cl log spec) = log @ [requestInit pf cl spec u]"
    if "rq_path spec = evil_path" "rq_query spec = None"
      "URL_new pf evil_path (Some (baseUrl cl)) = Inr u"
    using that b by (simp add: request_log issued_def)
  then show ?thesis using n b by blast
qed

theorem uppercase_scheme_skips_external_url_check_witness:
  "map (\<lambda>call. href (fc_url call))
     (fst (request ((example_platform listing_server)\<lparr>URL_new := absolute_URL\<rparr>)
             example_client [] evil_request))
     = [''https://evil.example/steal'']
   \<and> \<not> startsWith ''https://evil.example/steal'' (baseUrl example_client)"
proof -
  let ?pf = "(example_platform listing_server)\<lparr>URL_new := absolute_URL\<rparr>"
  let ?u = "\<lparr>href = ''https://evil.example/steal'', pathname = [], search = [], hash = [],
             searchParams = []\<rparr>"
  have u: "URL_new ?pf evil_path (Some (baseUrl example_client)) = Inr ?u"
    by (simp add: absolute_URL_def evil_path_def ascii_lowercase_def ascii_lowercase_char_def char_of_def
        bit_simps)
  have p: "rq_path evil_request = evil_path" "rq_query evil_request = None"
    by (simp_all add: evil_request_def details_request_def)
  have "fst (request ?pf example_client [] evil_request)
          = [] @ [requestInit ?pf example_client evil_request ?u]"
    using uppercase_scheme_skips_external_url_check [of ?pf example_client evil_request ?u "[]"]
      u p by blast
  then show ?thesis by (simp add: requestInit_def example_client_def)
qed

text \<open>
  C8. A request whose URL can be built, that nothing aborts, and that is answered with a
  status from 200 to 299 and a non-empty body returns an envelope in which exactly one
  of \<open>data\<close> and \<open>text\<close> is defined. \<open>data\<close> is what \<open>JSON.parse\<close> yields when the
  response is classified as JSON and is undefined otherwise; the response is classified
  as JSON when the response type is \<open>json\<close>, or when it is not \<open>text\<close> and the
  content type contains \<open>application/json\<close> or \<open>+json\<close>; with the response type
  \<open>text\<close> \<open>data\<close> is never defined. A body that \<open>JSON.parse\<close> rejects gives an
  envelope without \<open>data\<close> whose \<open>text\<close> is the body: the request still returns.
\<close>
theorem request_envelope_data_or_text:
  assumes url: "buildUrl pf cl (rq_path spec) (rq_query spec) = Inr u"
    and quiet: "tl_aborts (fetch pf log (requestInit pf cl spec u)) = []"
    and sg: "\<forall>e. rq_signal spec \<noteq> Some (AlreadyAborted e)"
    and resp: "tl_transport (fetch pf log (requestInit pf cl spec u)) = Responded response (Inr rawText)"
    and ok: "response_ok response"
    and nonempty: "rawText \<noteq> []"
  shows "\<exists>summary.
           request pf cl log spec = (log @ [requestInit pf cl spec u], Inr summary)
         \<and> (sum_data summary = None) \<noteq> (sum_text summary = None)
         \<and> sum_data summary
             = (if shouldParseJson response (rq_responseType spec) then JSON_parse pf rawText else None)
         \<and> sum_text summary = (if sum_data summary = None then Some rawText else None)
         \<and> (sum_data summary \<noteq> None \<longrightarrow> shouldParseJson response (rq_responseType spec))
         \<and> shouldParseJson response (rq_responseType spec)
             = (rq_responseType spec = ''json''
                \<or> (rq_responseType spec \<noteq> ''text''
                    \<and> (\<exists>ct. headers_get (r_headers response) ''content-type'' = Some ct
                          \<and> (includes_str ct ''application/json'' \<or> includes_str ct ''+json''))))
         \<and> (rq_responseType spec = ''text'' \<longrightarrow> sum_data summary = None)
         \<and> (JSON_parse pf rawText = None
              \<longrightarrow> sum_data summary = None \<and> sum_text summary = Some rawText)"
proof -
  let ?parsed = "if shouldParseJson response (rq_responseType spec) then JSON_parse pf rawText else None"
  let ?summary = "\<lparr>sum_ok = response_ok response, sum_status = r_status response,
      sum_statusText = r_statusText response, sum_url = r_url response,
      sum_method = rq_method spec,
      sum_durationMs = tl_durationMs (fetch pf log (requestInit pf cl spec u)),
      sum_headers = toPlainHeaders (r_headers response), sum_data = ?parsed,
      sum_text = (if ?parsed \<noteq> None then None else Some rawText)\<rparr>"
  have "request pf cl log spec = (log @ [requestInit pf cl spec u], Inr ?summary)"
    using request_undisturbed [OF url quiet sg] resp ok nonempty
    by (simp add: conclude_def Let_def)
  moreover have "rq_responseType spec = ''text'' \<longrightarrow> \<not> shouldParseJson response (rq_responseType spec)"
    by (simp add: shouldParseJson_def)
  ultimately show ?thesis
    using shouldParseJson_iff [of response "rq_responseType spec"]
    by (intro exI [of _ ?summary]) auto
qed

theorem request_envelope_data_or_text_witness:
  "\<exists>summary.
      snd (request (example_platform (\<lambda>log call. reply 200 ''application/json'' msg_text))
             example_client [] (details_request (NumId 7))) = Inr summary
      \<and> sum_data summary = Some msg_payload \<and> sum_text summary = None"
proof -
  let ?pf = "example_platform (\<lambda>log call. reply 200 ''application/json'' msg_text)"
  let ?r = "\<lparr>r_status = 200, r_statusText = [], r_url = [],
             r_headers = [(''content-type'', ''application/json'')]\<rparr>"
  have quiet: "tl_aborts (fetch ?pf [] (requestInit ?pf example_client (details_request (NumId 7))
                 (example_url ''job_definitions/7''))) = []"
    by (simp add: example_platform_def reply_def)
  have sg: "\<forall>e. rq_signal (details_request (NumId 7)) \<noteq> Some (AlreadyAborted e)"
    by (simp add: details_request_def)
  have resp: "tl_transport (fetch ?pf [] (requestInit ?pf example_client (details_request (NumId 7))
                 (example_url ''job_definitions/7''))) = Responded ?r (Inr msg_text)"
    by (simp add: example_platform_def reply_def)
  have ok: "response_ok ?r" by (simp add: response_ok_def)
  have ne: "msg_text \<noteq> []" by (simp add: msg_text_def)
  have should: "shouldParseJson ?r (rq_responseType (details_request (NumId 7)))"
    by (simp add: shouldParseJson_def details_request_def headers_get_def ascii_lowercase_def
        ascii_lowercase_char_def)
  have parse: "JSON_parse ?pf msg_text = Some msg_payload"
    by (simp add: example_platform_def example_parse_def)
  show ?thesis
    using request_envelope_data_or_text [OF example_buildUrl_details quiet sg resp ok ne]
      should parse by auto
qed

text \<open>
  C9. The handler always returns a result with \<open>ok = true\<close> whose matches are all the
  deduplicated matches; the enriched matches are the first five of them, in order. A
  candidate whose detail request fails gets the empty \<open>config\<close>; a candidate whose detail
  request succeeds gets the \<open>config\<close> extracted from its own response (the empty one when
  the response has no truthy data). So a failed detail request removes nothing from the
  matches, does not fail the call, and empties the \<open>config\<close> of its own candidate only.
\<close>
theorem enrichment_failure_is_local:
  assumes run: "trocco_batch_search pf cl searchTerm s maxBatches = (log', result, enrichedMatches)"
    and scanned: "scan pf cl searchTerm s maxBatches = (log, st)"
  shows "res_ok result
       \<and> res_matches result = map (project_match (baseUrl cl)) (uniqueMatches (allMatches st))
       \<and> map fst enrichedMatches = take 5 (uniqueMatches (allMatches st))
       \<and> (\<forall>i<length enrichedMatches. \<forall>e.
             detail_outcome pf cl log (take 5 (uniqueMatches (allMatches st))) i = Inl e
             \<longrightarrow> snd (enrichedMatches ! i) = empty_config)
       \<and> (\<forall>i<length enrichedMatches. \<forall>response.
             detail_outcome pf cl log (take 5 (uniqueMatches (allMatches st))) i = Inr response
             \<longrightarrow> snd (enrichedMatches ! i)
                  = (if truthy_opt (map_option body_json (sum_data response))
                     then extractConfigDetails (map_option body_json (sum_data response))
                     else empty_config))"
proof -
  let ?cands = "take 5 (uniqueMatches (allMatches st))"
  have e: "enrichedMatches = snd (enrich pf cl log ?cands)"
    and r: "res_ok result"
      "res_matches result = map (project_match (baseUrl cl)) (uniqueMatches (allMatches st))"
    using run scanned by (auto simp: trocco_batch_search_def Let_def split: prod.splits)
  have len: "length enrichedMatches = length ?cands" unfolding e by (rule enrich_length)
  have nth: "snd (enrichedMatches ! i) = config_of_outcome (detail_outcome pf cl log ?cands i)"
    if "i < length enrichedMatches" for i
    using that len enrich_nth [of i ?cands pf cl log] unfolding e by simp
  have "map fst enrichedMatches = ?cands" unfolding e by (rule enrich_fst)
  then show ?thesis using r nth by (simp add: config_of_outcome_def)
qed

theorem enrichment_failure_is_local_witness:
  "snd (snd (snd (trocco_batch_search (example_platform detail_server) example_client ''sales''
                    exhaustive_scan 1)) ! 0) = empty_config
   \<and> snd (snd (snd (trocco_batch_search (example_platform detail_server) example_client ''sales''
                    exhaustive_scan 1)) ! 1)
       = empty_config\<lparr>input_s3 := Some \<lparr>s3_bucket = Some (JStr ''raw''),
                                           s3_prefix = Some (JStr ''in/''), s3_region = None\<rparr>\<rparr>
   \<and> res_ok (fst (snd (trocco_batch_search (example_platform detail_server) example_client ''sales''
                    exhaustive_scan 1)))
   \<and> map m_id (res_matches (fst (snd (trocco_batch_search (example_platform detail_server)
                    example_client ''sales'' exhaustive_scan 1))))
       = [NumId 1, NumId 2]"
proof -
  let ?pf = "example_platform detail_server"
  let ?j1 = "example_job 1 ''nightly export'' ''Daily sales report''"
  let ?j2 = "example_job 2 ''Sales sync'' []"
  let ?log = "[requestInit ?pf example_client
         (job_definitions_request [(''limit'', QScalar (SNum 100))])
         ((example_url ''job_definitions'')\<lparr>searchParams := [(''limit'', ''100'')]\<rparr>)]"
  let ?st = "\<lparr>allMatches = [?j1, ?j2], totalScanned = 2, batchesSearched = 1\<rparr>"
  obtain log' result enriched where
    run: "trocco_batch_search ?pf example_client ''sales'' exhaustive_scan 1 = (log', result, enriched)"
    by (cases "trocco_batch_search ?pf example_client ''sales'' exhaustive_scan 1") auto
  have scanned: "scan ?pf example_client ''sales'' exhaustive_scan 1 = (?log, ?st)"
    using detail_server_scan by simp
  have cands: "take 5 (uniqueMatches (allMatches ?st)) = [?j1, ?j2]"
    by (simp add: example_unique)
  have o1: "detail_outcome ?pf example_client ?log [?j1, ?j2] 0
              = Inl (wrap_error (requestContext example_client (details_request (NumId 1))
                                   (example_url ''job_definitions/1''))
                       (JsError ''fetch failed''))"
    by (simp add: detail_outcome_def detail_server_job_1 example_job_def)
  have o2: "detail_outcome ?pf example_client ?log [?j1, ?j2] 1
              = Inr (example_summary ''GET'' detail_payload)"
    by (simp add: detail_outcome_def detail_server_job_2 example_job_def)
  note t = enrichment_failure_is_local [OF run scanned, unfolded cands]
  have fsts: "map fst enriched = [?j1, ?j2]" using t by blast
  then have len: "length enriched = 2" by (metis length_map length_Cons list.size(3) numeral_2_eq_2)
  have "snd (enriched ! 0) = empty_config" using t o1 len by auto
  moreover have "snd (enriched ! 1)
      = empty_config\<lparr>input_s3 := Some \<lparr>s3_bucket = Some (JStr ''raw''),
                                          s3_prefix = Some (JStr ''in/''), s3_region = None\<rparr>\<rparr>"
    using t o2 len detail_payload_truthy [of "''GET''"] detail_payload_config [of "''GET''"]
    by auto
  moreover have "res_ok result" using t by blast
  moreover have "map m_id (res_matches result) = [NumId 1, NumId 2]"
  proof -
    have "res_matches result
            = map (project_match (baseUrl example_client)) (uniqueMatches (allMatches ?st))"
      using t by blast
    then have "res_matches result = map (project_match (baseUrl example_client)) [?j1, ?j2]"
      by (simp add: example_unique)
    then show ?thesis by (simp add: project_match_def example_job_def)
  qed
  ultimately show ?thesis unfolding run by simp
qed

text \<open>
  C10. For a search term of one character the window loop adds nothing, the first half
  is the empty string and the second half is the term, so the chunks are the empty
  string and the term. With a budget of at least one batch, and a URL that can be built,
  the first request of the strategy carries \<open>name_contains\<close> with the empty string as
  its value (and \<open>limit\<close> 200) in the search parameters of its URL.
\<close>
theorem keyword_chunks_single_character_term:
  "chunk_loop [c] 0 [] = []
   \<and> substring [c] 0 (length [c] div 2) = []
   \<and> substring_from [c] (length [c] div 2) = [c]
   \<and> keyword_chunks_list [c] = [[], [c]]
   \<and> (1 \<le> maxBatches \<and> URL_new pf ''job_definitions'' (Some (baseUrl cl)) = Inr u
        \<longrightarrow> (\<exists>call rest.
               fst (scan pf cl [c] keyword_chunks maxBatches) = call # rest
               \<and> searchParams (fc_url call)
                   = searchParams_set (searchParams_set (searchParams u) ''name_contains'' [])
                       ''limit'' ''200''
               \<and> (''name_contains'', []) \<in> set (searchParams (fc_url call))))"
proof -
  have first: "chunk_loop [c] 0 [] = []" by (simp add: chunk_loop_eq)
  have halves: "substring [c] 0 (length [c] div 2) = []" "substring_from [c] (length [c] div 2) = [c]"
    by (simp_all add: substring_def substring_from_def)
  have net: "\<exists>call rest.
               fst (scan pf cl [c] keyword_chunks maxBatches) = call # rest
               \<and> searchParams (fc_url call)
                   = searchParams_set (searchParams_set (searchParams u) ''name_contains'' [])
                       ''limit'' ''200''
               \<and> (''name_contains'', []) \<in> set (searchParams (fc_url call))"
    if mb: "1 \<le> maxBatches" and url: "URL_new pf ''job_definitions'' (Some (baseUrl cl)) = Inr u"
  proof -
    let ?st0 = "\<lparr>allMatches = [], totalScanned = 0, batchesSearched = 0\<rparr>"
    have "\<exists>n\<le>length [[], [c]].
            fst (name_contains_loop keyword_chunks pf cl (toLowerCase pf [c]) maxBatches [[], [c]] ([], ?st0))
              = [] @ concat (map (\<lambda>chunk. issued pf cl (name_contains_request chunk)) (take n [[], [c]]))
          \<and> min (length [[], [c]]) (maxBatches - batchesSearched ?st0) \<le> n
          \<and> ((\<forall>c l. \<exists>r. snd (request pf cl l (name_contains_request c)) = Inr r)
                \<longrightarrow> n = min (length [[], [c]]) (maxBatches - batchesSearched ?st0))"
      by (rule name_contains_loop_log)
    then obtain n where n0:
      "fst (name_contains_loop keyword_chunks pf cl (toLowerCase pf [c]) maxBatches [[], [c]] ([], ?st0))
         = [] @ concat (map (\<lambda>chunk. issued pf cl (name_contains_request chunk)) (take n [[], [c]]))"
      and n1: "min (length [[], [c :: char]]) (maxBatches - batchesSearched ?st0) \<le> n"
      by blast
    have n: "fst (scan pf cl [c] keyword_chunks maxBatches)
         = concat (map (\<lambda>chunk. issued pf cl (name_contains_request chunk)) (take n [[], [c]]))"
      unfolding scan_keyword_chunks keyword_chunks_single n0 by (simp only: append_Nil)
    obtain call where call: "issued pf cl (name_contains_request []) = [call]"
      "searchParams (fc_url call)
         = searchParams_set (searchParams_set (searchParams u) ''name_contains'' [])
             ''limit'' ''200''"
      using issued_name_contains [OF url, of "[]"] by (auto simp: String_int_200)
    have "1 \<le> n" using n1 mb by simp
    then obtain m where m: "n = Suc m" by (cases n) auto
    have "fst (scan pf cl [c] keyword_chunks maxBatches)
            = call # concat (map (\<lambda>chunk. issued pf cl (name_contains_request chunk)) (take m [[c]]))"
      using n call(1) unfolding m by simp
    moreover have "(''name_contains'', []) \<in> set (searchParams (fc_url call))"
      unfolding call(2) by (intro searchParams_set_other searchParams_set_mem) simp
    ultimately show ?thesis using call(2) by blast
  qed
  show ?thesis using first halves keyword_chunks_single net by blast
qed

theorem keyword_chunks_single_character_term_witness:
  "\<exists>call rest.
      fst (scan quiet_platform example_client ''a'' keyword_chunks 1) = call # rest
      \<and> (''name_contains'', []) \<in> set (searchParams (fc_url call))"
proof -
  have url: "URL_new quiet_platform ''job_definitions'' (Some (baseUrl example_client))
               = Inr \<lparr>href = ''https://trocco.io/api/job_definitions'',
                        pathname = ''job_definitions'', search = [], hash = [],
                        searchParams = []\<rparr>"
    by (simp add: quiet_platform_def plain_URL_def example_client_def)
  have "(1 :: nat) \<le> 1" by simp
  with url show ?thesis
    using keyword_chunks_single_character_term
            [of "CHR ''a''" 1 quiet_platform example_client
                "\<lparr>href = ''https://trocco.io/api/job_definitions'',
                  pathname = ''job_definitions'', search = [], hash = [],
                  searchParams = []\<rparr>"]
    by blast
qed

end
